theory Spec2Isabelle
  imports Main "HOL-Library.Word"
begin

section \<open>Library functions used by pkg/auth/qwen\_oauth.go\<close>

text \<open>
  A Go string and a Go byte slice are both sequences of bytes; HOL's \<open>char\<close> is a
  byte, so both are modelled by \<open>string\<close>.
\<close>

subsection \<open>strings.Split with a one-byte separator\<close>

text \<open>
  \<^verbatim>\<open>strings.Split(s, ".")\<close> cuts \<open>s\<close> at every separator; the result always has
  at least one element (the whole string when there is no separator).
\<close>

fun Split :: "string \<Rightarrow> char \<Rightarrow> string list" where
  "Split [] sep = [[]]"
| "Split (x # xs) sep =
     (if x = sep then [] # Split xs sep
      else (case Split xs sep of
              [] \<Rightarrow> [[x]]
            | p # ps \<Rightarrow> (x # p) # ps))"

subsection \<open>encoding/hex and encoding/base64\<close>

definition hextable :: string where
  "hextable = ''0123456789abcdef''"

fun EncodeToString_hex :: "string \<Rightarrow> string" where
  "EncodeToString_hex [] = []"
| "EncodeToString_hex (b # bs) =
     hextable ! (of_char b div 16) # hextable ! (of_char b mod 16) # EncodeToString_hex bs"

definition encodeStd :: string where
  "encodeStd = ''ABCDEFGHIJKLMNOPQRSTUVWXYZabcdefghijklmnopqrstuvwxyz0123456789+/''"

definition encodeURL :: string where
  "encodeURL = ''ABCDEFGHIJKLMNOPQRSTUVWXYZabcdefghijklmnopqrstuvwxyz0123456789-_''"

text \<open>
  \<^verbatim>\<open>Encoding.EncodeToString\<close> of an encoding without padding, over the alphabet
  \<open>al\<close>: three bytes make the 24-bit value \<open>val\<close>, read as four 6-bit indices; a
  remainder of one or two bytes gives two or three characters.
\<close>

fun EncodeToString_nopad :: "string \<Rightarrow> string \<Rightarrow> string" where
  "EncodeToString_nopad al (a # b # c # rest) =
     (let val = of_char a * 65536 + of_char b * 256 + (of_char c :: nat) in
      al ! (val div 262144 mod 64) # al ! (val div 4096 mod 64) #
      al ! (val div 64 mod 64) # al ! (val mod 64) # EncodeToString_nopad al rest)"
| "EncodeToString_nopad al [a, b] =
     (let val = of_char a * 65536 + of_char b * 256 in
      [al ! (val div 262144 mod 64), al ! (val div 4096 mod 64), al ! (val div 64 mod 64)])"
| "EncodeToString_nopad al [a] =
     (let val = of_char a * 65536 in
      [al ! (val div 262144 mod 64), al ! (val div 4096 mod 64)])"
| "EncodeToString_nopad al [] = []"

text \<open>The decode map of an encoding: the index of a byte in the alphabet, if any.\<close>

fun decodeMap :: "string \<Rightarrow> char \<Rightarrow> nat option" where
  "decodeMap [] c = None"
| "decodeMap (x # xs) c = (if x = c then Some 0 else map_option Suc (decodeMap xs c))"

text \<open>
  The quanta of \<^verbatim>\<open>Encoding.Decode\<close> for a padded, non-strict encoding, on an input
  from which carriage returns and line feeds have been dropped. A quantum is four
  alphabet bytes, or two alphabet bytes and \<open>==\<close>, or three and \<open>=\<close>, the padded
  forms only at the very end; everything else is a \<^verbatim>\<open>CorruptInputError\<close>
  (\<open>None\<close>). The bits of a final quantum beyond its whole bytes are ignored.
\<close>

fun decodeQuanta :: "string \<Rightarrow> string \<Rightarrow> string option" where
  "decodeQuanta al (c0 # c1 # c2 # c3 # rest) =
     (case (decodeMap al c0, decodeMap al c1) of
        (Some v0, Some v1) \<Rightarrow>
          (if c2 = CHR ''='' then
             (if c3 = CHR ''='' \<and> rest = [] then
                Some [char_of ((v0 * 262144 + v1 * 4096) div 65536 mod 256)]
              else None)
           else
             (case decodeMap al c2 of
                None \<Rightarrow> None
              | Some v2 \<Rightarrow>
                  (if c3 = CHR ''='' then
                     (if rest = [] then
                        (let val = v0 * 262144 + v1 * 4096 + v2 * 64 in
                         Some [char_of (val div 65536 mod 256), char_of (val div 256 mod 256)])
                      else None)
                   else
                     (case decodeMap al c3 of
                        None \<Rightarrow> None
                      | Some v3 \<Rightarrow>
                          (let val = v0 * 262144 + v1 * 4096 + v2 * 64 + v3 in
                           map_option
                             (\<lambda>bs. char_of (val div 65536 mod 256) #
                                   char_of (val div 256 mod 256) #
                                   char_of (val mod 256) # bs)
                             (decodeQuanta al rest))))))
      | _ \<Rightarrow> None)"
| "decodeQuanta al [] = Some []"
| "decodeQuanta al cs = None"

text \<open>
  \<^verbatim>\<open>base64.StdEncoding.DecodeString\<close>: the decoder skips every carriage return and
  line feed of its input.
\<close>

definition DecodeString_std :: "string \<Rightarrow> string option" where
  "DecodeString_std s =
     decodeQuanta encodeStd (filter (\<lambda>c. c \<noteq> CHR 0x0A \<and> c \<noteq> CHR 0x0D) s)"

section \<open>pkg/auth/qwen\_oauth.go: PKCE parameters\<close>

text \<open>\<^verbatim>\<open>base64.URLEncoding.WithPadding(base64.NoPadding).EncodeToString(input)\<close>\<close>

definition base64URLEncode :: "string \<Rightarrow> string" where
  "base64URLEncode input = EncodeToString_nopad encodeURL input"

text \<open>
  \<^verbatim>\<open>generateCodeChallenge\<close> returns the verifier itself. Its comment in the source
  says that a SHA-256 hash should be used here and that the function, as a
  simplification, returns the verifier directly.
\<close>

definition generateCodeChallenge :: "string \<Rightarrow> string" where
  "generateCodeChallenge verifier = verifier"

section \<open>pkg/auth/qwen\_oauth.go: data\<close>

text \<open>
  A \<^verbatim>\<open>time.Time\<close> is modelled by the number of nanoseconds since the zero
  \<^verbatim>\<open>time.Time\<close>, so the zero value (\<^verbatim>\<open>var expiresAt time.Time\<close>) is \<open>0\<close>.
\<close>

type_synonym time = int

text \<open>
  Modelled from the spec: the struct \<^verbatim>\<open>AuthCredential\<close> is declared in a file of
  package auth that is not among the sources; its fields are the ones the spec's
  Credential lists and \<^verbatim>\<open>exchangeQwenCodeForToken\<close> assigns.
\<close>

record AuthCredential =
  AccessToken :: string
  RefreshToken :: string
  AccountID :: string
  ExpiresAt :: time
  Provider :: string
  AuthMethod :: string

record QwenQRCodeData =
  QrCodeUrl :: string
  QrCodeId :: string
  RedirectUri :: string
  DataRefreshToken :: string

record QwenQRCodeResponse =
  QrCode :: string
  QrMessage :: string
  QrData :: QwenQRCodeData

text \<open>\<^verbatim>\<open>ExpiresIn\<close> is a Go \<^verbatim>\<open>int\<close>: a signed 64-bit integer on 64-bit targets.\<close>

record QwenTokenResponse =
  TokenAccessToken :: string
  TokenRefreshToken :: string
  ExpiresIn :: "64 word"
  TokenType :: string

text \<open>The anonymous struct \<^verbatim>\<open>statusResp\<close> of \<^verbatim>\<open>checkQwenScanStatus\<close>.\<close>

record statusResp =
  StatusRespCode :: string
  StatusRespMessage :: string
  DataStatus :: string
  DataCode :: string

text \<open>
  The dynamic values that \<^verbatim>\<open>json.Unmarshal\<close> stores in an \<^verbatim>\<open>interface{}\<close>:
  \<^verbatim>\<open>nil\<close>, \<^verbatim>\<open>bool\<close>, \<^verbatim>\<open>float64\<close> (its 64 bits), \<^verbatim>\<open>string\<close>,
  \<^verbatim>\<open>[]interface{}\<close> and \<^verbatim>\<open>map[string]interface{}\<close>.
\<close>

datatype go_value =
    GoNil
  | GoBool bool
  | GoFloat64 "64 word"
  | GoString string
  | GoSlice "go_value list"
  | GoMap "(string \<times> go_value) list"

text \<open>
  \<^verbatim>\<open>json.Unmarshal\<close> is a function of the standard library; the model takes it as a
  parameter, one function per target type the source decodes into. \<open>None\<close> is a
  non-nil error. For the target \<^verbatim>\<open>map[string]interface{}\<close> the result is the map as
  a partial function from keys to values; the nil map that a JSON \<^verbatim>\<open>null\<close> leaves
  has no key.
\<close>

record json =
  Unmarshal_QwenQRCodeResponse :: "string \<Rightarrow> QwenQRCodeResponse option"
  Unmarshal_statusResp :: "string \<Rightarrow> statusResp option"
  Unmarshal_QwenTokenResponse :: "string \<Rightarrow> QwenTokenResponse option"
  Unmarshal_claims :: "string \<Rightarrow> (string \<rightharpoonup> go_value) option"

text \<open>
  The errors the source returns, one constructor per place that makes one; the last
  three are the wrappers of \<^verbatim>\<open>LoginQwenQRCode\<close> (\<^verbatim>\<open>fmt.Errorf("...%w", err)\<close>).
\<close>

datatype error =
    RandReadError
  | HttpError
  | ReadBodyError
  | UnmarshalError
  | QRCodeParseError string
  | AuthCodeEmpty
  | QRCodeExpiredOrCanceled
  | TokenExchangeFailed string
  | NoAccessToken
  | ScanTimeout
  | StateFailed error
  | CodeVerifierFailed error
  | QRCodeFailed error

text \<open>
  What an HTTP call gives: a transport error, a response whose body cannot be read,
  or a status code and a body.
\<close>

datatype http_result =
    Failed
  | BodyUnreadable
  | Response nat string

section \<open>pkg/auth/qwen\_oauth.go: functions\<close>

text \<open>
  \<^verbatim>\<open>rand.Read\<close> fills the 32-byte buffer or fails; \<open>None\<close> is the failure.
\<close>

definition generateQwenState :: "string option \<Rightarrow> error + string" where
  "generateQwenState rand =
     (case rand of
        None \<Rightarrow> Inl RandReadError
      | Some buf \<Rightarrow> Inr (EncodeToString_hex buf))"

definition generateCodeVerifier :: "string option \<Rightarrow> error + string" where
  "generateCodeVerifier rand =
     (case rand of
        None \<Rightarrow> Inl RandReadError
      | Some bytes \<Rightarrow> Inr (base64URLEncode bytes))"

definition extractQwenAccountID :: "json \<Rightarrow> string \<Rightarrow> string" where
  "extractQwenAccountID js accessToken =
     (let parts = Split accessToken (CHR ''.'') in
      if length parts < 2 then ''''
      else
        (let payload = parts ! 1;
             payload =
               (if length payload mod 4 = 2 then payload @ ''==''
                else if length payload mod 4 = 3 then payload @ ''=''
                else payload)
         in case DecodeString_std payload of
              None \<Rightarrow> ''''
            | Some decoded \<Rightarrow>
                (case Unmarshal_claims js decoded of
                   None \<Rightarrow> ''''
                 | Some claims \<Rightarrow>
                     (case claims ''sub'' of
                        Some (GoString sub) \<Rightarrow> sub
                      | _ \<Rightarrow> ''''))))"

text \<open>
  \<^verbatim>\<open>time.Duration(tokenResp.ExpiresIn) * time.Second\<close> is a product of two
  \<^verbatim>\<open>int64\<close>, which wraps; \<^verbatim>\<open>time.Now()\<close> is the parameter \<open>now\<close>.
\<close>

definition Second :: "64 word" where
  "Second = 1000000000"

text \<open>
  The form that \<^verbatim>\<open>exchangeQwenCodeForToken\<close> posts to the token endpoint
  (\<^verbatim>\<open>data := fmt.Sprintf(...)\<close>).
\<close>

definition token_form :: "string \<Rightarrow> string \<Rightarrow> string \<Rightarrow> string" where
  "token_form code codeVerifier state =
     ''grant_type=authorization_code&code='' @ code @
     ''&redirect_uri=oob&client_id=qwen_cli_app&code_verifier='' @ codeVerifier @
     ''&state='' @ state"

definition exchangeQwenCodeForToken ::
  "json \<Rightarrow> (string \<Rightarrow> http_result) \<Rightarrow> time \<Rightarrow> string \<Rightarrow> string \<Rightarrow> string \<Rightarrow> error + AuthCredential" where
  "exchangeQwenCodeForToken js http_post now code codeVerifier state =
     (case http_post (token_form code codeVerifier state) of
           Failed \<Rightarrow> Inl HttpError
         | BodyUnreadable \<Rightarrow> Inl ReadBodyError
         | Response StatusCode body \<Rightarrow>
             if StatusCode \<noteq> 200 then Inl (TokenExchangeFailed body)
             else
               (case Unmarshal_QwenTokenResponse js body of
                  None \<Rightarrow> Inl UnmarshalError
                | Some tokenResp \<Rightarrow>
                    if TokenAccessToken tokenResp = '''' then Inl NoAccessToken
                    else
                      (let expiresAt =
                             (if 0 < sint (ExpiresIn tokenResp)
                              then now + sint (ExpiresIn tokenResp * Second)
                              else 0);
                           cred = \<lparr>AccessToken = TokenAccessToken tokenResp,
                                   RefreshToken = TokenRefreshToken tokenResp,
                                   AccountID = '''',
                                   ExpiresAt = expiresAt,
                                   Provider = ''qwen'',
                                   AuthMethod = ''oauth''\<rparr>;
                           accountID = extractQwenAccountID js (TokenAccessToken tokenResp)
                       in if accountID \<noteq> '''' then Inr (cred\<lparr>AccountID := accountID\<rparr>)
                          else Inr cred)))"

text \<open>
  The Go result \<^verbatim>\<open>(*AuthCredential, error)\<close> of \<^verbatim>\<open>checkQwenScanStatus\<close> is
  \<open>Inl err\<close> for \<^verbatim>\<open>(nil, err)\<close>, \<open>Inr (Some cred)\<close> for \<^verbatim>\<open>(cred, nil)\<close> and
  \<open>Inr None\<close> for \<^verbatim>\<open>(nil, nil)\<close>.
\<close>

text \<open>The URL that \<^verbatim>\<open>checkQwenScanStatus\<close> gets.\<close>

definition status_url :: "string \<Rightarrow> string" where
  "status_url qrCodeId = ''https://oauth.aliyun.com/v1/oauth/qrcode/status?id='' @ qrCodeId"

definition checkQwenScanStatus ::
  "json \<Rightarrow> (string \<Rightarrow> http_result) \<Rightarrow> (string \<Rightarrow> http_result) \<Rightarrow> time \<Rightarrow>
   string \<Rightarrow> string \<Rightarrow> string \<Rightarrow> error + AuthCredential option" where
  "checkQwenScanStatus js http_get http_post now qrCodeId state codeVerifier =
     (case http_get (status_url qrCodeId) of
           Failed \<Rightarrow> Inl HttpError
         | BodyUnreadable \<Rightarrow> Inl ReadBodyError
         | Response StatusCode body \<Rightarrow>
             (case Unmarshal_statusResp js body of
                None \<Rightarrow> Inl UnmarshalError
              | Some resp \<Rightarrow>
                  if DataStatus resp = ''AUTHORIZED'' then
                    (if DataCode resp = '''' then Inl AuthCodeEmpty
                     else
                       (case exchangeQwenCodeForToken js http_post now (DataCode resp)
                               codeVerifier state of
                          Inl err \<Rightarrow> Inl err
                        | Inr cred \<Rightarrow> Inr (Some cred)))
                  else if DataStatus resp = ''EXPIRED'' \<or> DataStatus resp = ''CANCELED'' then
                    Inl QRCodeExpiredOrCanceled
                  else Inr None))"

text \<open>The URL that \<^verbatim>\<open>getQwenQRCode\<close> requests: \<^verbatim>\<open>url + "?" + params\<close>.\<close>

definition qrcode_url :: "string \<Rightarrow> string \<Rightarrow> string" where
  "qrcode_url state codeChallenge =
     (let url = ''https://oauth.aliyun.com/v1/oauth/qrcode'';
          params = ''response_type=code&client_id=qwen_cli_app&state='' @ state @
                   ''&code_challenge='' @ codeChallenge @
                   ''&code_challenge_method=S256&scope=openid+profile+email''
      in url @ ''?'' @ params)"

definition getQwenQRCode ::
  "json \<Rightarrow> (string \<Rightarrow> http_result) \<Rightarrow> string \<Rightarrow> string \<Rightarrow> error + QwenQRCodeResponse" where
  "getQwenQRCode js http_get state codeChallenge =
     (case http_get (qrcode_url state codeChallenge) of
           Failed \<Rightarrow> Inl HttpError
         | BodyUnreadable \<Rightarrow> Inl ReadBodyError
         | Response StatusCode body \<Rightarrow>
             (case Unmarshal_QwenQRCodeResponse js body of
                None \<Rightarrow> Inl (QRCodeParseError body)
              | Some qrResp \<Rightarrow> Inr qrResp))"

section \<open>pkg/auth/qwen\_oauth.go: the polling loop of LoginQwenQRCode\<close>

text \<open>
  Time in the loop is counted in milliseconds from the moment the two timers are made:
  \<^verbatim>\<open>time.After(10 * time.Minute)\<close> makes the deadline channel ready at \<open>deadline_ms\<close>,
  and \<^verbatim>\<open>time.NewTicker(3 * time.Second)\<close> ticks at every multiple of \<open>tick_ms\<close>, the
  first tick one period after its creation. The ticker's channel holds one tick; a tick
  that finds the channel full is dropped.
\<close>

definition deadline_ms :: nat where
  "deadline_ms = 10 * 60 * 1000"

definition tick_ms :: nat where
  "tick_ms = 3 * 1000"

text \<open>
  One round of the loop is what the outside world contributes to one pass through the
  \<^verbatim>\<open>select\<close>: which case the runtime takes when both channels are ready at once
  (\<open>pick_deadline\<close>), how long the call of \<^verbatim>\<open>checkQwenScanStatus\<close> takes
  (\<open>latency\<close>, in milliseconds), the answers of the status and token endpoints to the
  requests made in that call, and what \<^verbatim>\<open>time.Now()\<close> returns in it. Every call is
  taken to return; \<^verbatim>\<open>http.Get\<close> without a timeout, which may block for ever, is not
  modelled.
\<close>

record round =
  pick_deadline :: bool
  latency :: nat
  status_get :: "string \<Rightarrow> http_result"
  token_post :: "string \<Rightarrow> http_result"
  wall_clock :: time

datatype select_case =
    DeadlineCase nat
  | TickerCase nat

text \<open>
  The \<^verbatim>\<open>select\<close> entered at time \<open>now\<close>, when the next tick that the channel holds or
  will hold is the one of time \<open>next_tick\<close>. It proceeds at the first moment \<open>t\<close> at
  which a channel is ready, with the case of that channel; when both are ready then, the
  runtime chooses.
\<close>

definition select :: "bool \<Rightarrow> nat \<Rightarrow> nat \<Rightarrow> select_case" where
  "select pick now next_tick =
     (let t = max now (min deadline_ms next_tick) in
      if deadline_ms \<le> t \<and> next_tick \<le> t then
        (if pick then DeadlineCase t else TickerCase t)
      else if deadline_ms \<le> t then DeadlineCase t
      else TickerCase t)"

text \<open>The first tick after a tick was received at time \<open>t\<close>.\<close>

definition tick_after :: "nat \<Rightarrow> nat" where
  "tick_after t = tick_ms * (t div tick_ms + 1)"

text \<open>
  What a run of the loop leaves: the result of \<^verbatim>\<open>LoginQwenQRCode\<close>, the time at
  which it returns, and the times at which \<^verbatim>\<open>checkQwenScanStatus\<close> was called.
\<close>

record run =
  outcome :: "error + AuthCredential"
  finished_at :: nat
  polled_at :: "nat list"

text \<open>
  The \<^verbatim>\<open>for { select { ... } }\<close> loop, one round per pass. \<open>None\<close>: the rounds given
  are used up and the loop is still running.
\<close>

fun poll_loop ::
  "json \<Rightarrow> string \<Rightarrow> string \<Rightarrow> string \<Rightarrow> nat \<Rightarrow> nat \<Rightarrow> nat list \<Rightarrow> round list \<Rightarrow> run option" where
  "poll_loop js qrCodeId state codeVerifier now next_tick polled [] = None"
| "poll_loop js qrCodeId state codeVerifier now next_tick polled (r # rs) =
     (case select (pick_deadline r) now next_tick of
        DeadlineCase t \<Rightarrow>
          Some \<lparr>outcome = Inl ScanTimeout, finished_at = t, polled_at = polled\<rparr>
      | TickerCase t \<Rightarrow>
          (case checkQwenScanStatus js (status_get r) (token_post r) (wall_clock r)
                  qrCodeId state codeVerifier of
             Inl err \<Rightarrow>
               poll_loop js qrCodeId state codeVerifier (t + latency r) (tick_after t)
                 (polled @ [t]) rs
           | Inr (Some cred) \<Rightarrow>
               Some \<lparr>outcome = Inr cred, finished_at = t + latency r, polled_at = polled @ [t]\<rparr>
           | Inr None \<Rightarrow>
               poll_loop js qrCodeId state codeVerifier (t + latency r) (tick_after t)
                 (polled @ [t]) rs))"

text \<open>
  What \<^verbatim>\<open>LoginQwenQRCode\<close> takes from the outside world: the two reads of
  \<^verbatim>\<open>rand.Read\<close>, the answer of the grant endpoint, and the rounds of the loop. Its
  printing, and \<^verbatim>\<open>openBrowser\<close>, whose error is only printed, are left out.
\<close>

record world =
  rand_state :: "string option"
  rand_verifier :: "string option"
  qrcode_get :: "string \<Rightarrow> http_result"
  rounds :: "round list"

definition LoginQwenQRCode :: "json \<Rightarrow> world \<Rightarrow> run option" where
  "LoginQwenQRCode js w =
     (case generateQwenState (rand_state w) of
        Inl err \<Rightarrow> Some \<lparr>outcome = Inl (StateFailed err), finished_at = 0, polled_at = []\<rparr>
      | Inr state \<Rightarrow>
          (case generateCodeVerifier (rand_verifier w) of
             Inl err \<Rightarrow>
               Some \<lparr>outcome = Inl (CodeVerifierFailed err), finished_at = 0, polled_at = []\<rparr>
           | Inr codeVerifier \<Rightarrow>
               (let codeChallenge = generateCodeChallenge codeVerifier in
                case getQwenQRCode js (qrcode_get w) state codeChallenge of
                  Inl err \<Rightarrow>
                    Some \<lparr>outcome = Inl (QRCodeFailed err), finished_at = 0, polled_at = []\<rparr>
                | Inr qrCodeResp \<Rightarrow>
                    poll_loop js (QrCodeId (QrData qrCodeResp)) state codeVerifier
                      0 tick_ms [] (rounds w))))"

text \<open>
  Lines 268 to 285 of \<^verbatim>\<open>extractQwenAccountID\<close> on their own: the bytes that the second
  segment of the token decodes to, when there is a second segment and it decodes.
\<close>

definition token_payload :: "string \<Rightarrow> string option" where
  "token_payload accessToken =
     (let parts = Split accessToken (CHR ''.'') in
      if length parts < 2 then None
      else
        (let payload = parts ! 1;
             payload =
               (if length payload mod 4 = 2 then payload @ ''==''
                else if length payload mod 4 = 3 then payload @ ''=''
                else payload)
         in DecodeString_std payload))"

section \<open>Example inputs\<close>

text \<open>
  The results of \<^verbatim>\<open>json.Unmarshal\<close> on the bodies that the examples below use. The
  examples give it no other body.
\<close>

definition no_data :: QwenQRCodeData where
  "no_data = \<lparr>QrCodeUrl = '''', QrCodeId = '''', RedirectUri = '''', DataRefreshToken = ''''\<rparr>"

definition json_table :: json where
  "json_table =
     \<lparr>Unmarshal_QwenQRCodeResponse =
        (\<lambda>body.
           if body = ''{}'' then Some \<lparr>QrCode = '''', QrMessage = '''', QrData = no_data\<rparr>
           else if body = ''{\"data\":{\"qrCodeUrl\":\"https://qr\",\"qrCodeId\":\"q1\"}}'' then
             Some \<lparr>QrCode = '''', QrMessage = '''',
                   QrData = no_data\<lparr>QrCodeUrl := ''https://qr'', QrCodeId := ''q1''\<rparr>\<rparr>
           else None),
      Unmarshal_statusResp =
        (\<lambda>body.
           if body = ''{\"data\":{\"status\":\"PENDING\"}}'' then
             Some \<lparr>StatusRespCode = '''', StatusRespMessage = '''',
                   DataStatus = ''PENDING'', DataCode = ''''\<rparr>
           else if body = ''{\"data\":{\"status\":\"QR_CODE_SCANNED\"}}'' then
             Some \<lparr>StatusRespCode = '''', StatusRespMessage = '''',
                   DataStatus = ''QR_CODE_SCANNED'', DataCode = ''''\<rparr>
           else if body = ''{}'' then
             Some \<lparr>StatusRespCode = '''', StatusRespMessage = '''',
                   DataStatus = '''', DataCode = ''''\<rparr>
           else if body = ''{\"data\":{\"status\":\"EXPIRED\"}}'' then
             Some \<lparr>StatusRespCode = '''', StatusRespMessage = '''',
                   DataStatus = ''EXPIRED'', DataCode = ''''\<rparr>
           else if body = ''{\"data\":{\"status\":\"AUTHORIZED\",\"code\":\"c1\"}}'' then
             Some \<lparr>StatusRespCode = '''', StatusRespMessage = '''',
                   DataStatus = ''AUTHORIZED'', DataCode = ''c1''\<rparr>
           else None),
      Unmarshal_QwenTokenResponse =
        (\<lambda>body.
           if body = ''{\"access_token\":\"\"}'' then
             Some \<lparr>TokenAccessToken = '''', TokenRefreshToken = '''', ExpiresIn = 0,
                   TokenType = ''''\<rparr>
           else if body = ''{\"access_token\":\"t1\",\"expires_in\":3600}'' then
             Some \<lparr>TokenAccessToken = ''t1'', TokenRefreshToken = '''', ExpiresIn = 3600,
                   TokenType = ''''\<rparr>
           else if body = ''{\"access_token\":\"t1\",\"expires_in\":9223372037}'' then
             Some \<lparr>TokenAccessToken = ''t1'', TokenRefreshToken = '''',
                   ExpiresIn = 9223372037, TokenType = ''''\<rparr>
           else if body = ''{\"access_token\":\"t1\",\"expires_in\":9223372036854775807}'' then
             Some \<lparr>TokenAccessToken = ''t1'', TokenRefreshToken = '''',
                   ExpiresIn = 9223372036854775807, TokenType = ''''\<rparr>
           else if body = ''{\"access_token\":\"t1\",\"expires_in\":-5}'' then
             Some \<lparr>TokenAccessToken = ''t1'', TokenRefreshToken = '''',
                   ExpiresIn = - 5, TokenType = ''''\<rparr>
           else None),
      Unmarshal_claims =
        (\<lambda>decoded.
           if decoded = ''{\"sub\":\"u1\"}'' then Some [''sub'' \<mapsto> GoString ''u1'']
           else if decoded = ''{\"sub\":\"~~~\"}'' then Some [''sub'' \<mapsto> GoString ''~~~'']
           else if decoded = ''{\"sub\":true}'' then Some [''sub'' \<mapsto> GoBool True]
           else if decoded = ''{}'' then Some Map.empty
           else None)\<rparr>"

text \<open>A wall clock in the year 2026, in nanoseconds since the zero time.\<close>

definition clock_2026 :: time where
  "clock_2026 = 63900000000000000000"

definition answer :: "nat \<Rightarrow> string \<Rightarrow> string \<Rightarrow> http_result" where
  "answer StatusCode body request = Response StatusCode body"

definition unreachable :: "string \<Rightarrow> http_result" where
  "unreachable request = Failed"

definition pending_round :: round where
  "pending_round =
     \<lparr>pick_deadline = False, latency = 100,
      status_get = answer 200 ''{\"data\":{\"status\":\"PENDING\"}}'',
      token_post = unreachable, wall_clock = clock_2026\<rparr>"


definition expired_round :: round where
  "expired_round =
     \<lparr>pick_deadline = False, latency = 100,
      status_get = answer 200 ''{\"data\":{\"status\":\"EXPIRED\"}}'',
      token_post = unreachable, wall_clock = clock_2026\<rparr>"

definition authorized_round :: round where
  "authorized_round =
     \<lparr>pick_deadline = False, latency = 100,
      status_get = answer 200 ''{\"data\":{\"status\":\"AUTHORIZED\",\"code\":\"c1\"}}'',
      token_post = answer 200 ''{\"access_token\":\"t1\",\"expires_in\":3600}'',
      wall_clock = clock_2026\<rparr>"

definition expired_first :: world where
  "expired_first =
     \<lparr>rand_state = Some ''0123456789abcdef0123456789abcdef'',
      rand_verifier = Some ''fedcba9876543210fedcba9876543210'',
      qrcode_get = answer 200 ''{\"data\":{\"qrCodeUrl\":\"https://qr\",\"qrCodeId\":\"q1\"}}'',
      rounds = [expired_round, authorized_round]\<rparr>"

text \<open>The verifier and the challenge of the example in Appendix B of RFC 7636.\<close>

definition rfc7636_verifier :: string where
  "rfc7636_verifier = ''dBjftJeZ4CVP-mB92K27uhbUJU1p1r_wW1gFWFOEjXk''"

definition rfc7636_challenge :: string where
  "rfc7636_challenge = ''E9Melhoa2OwvFrEMTJguCHaoeK1t8URWbuGJSstw-cM''"

section \<open>The token exchange\<close>

lemma exchange_cases:
  "exchangeQwenCodeForToken js http_post now code codeVerifier state = Inr cred \<Longrightarrow>
   \<exists>body tokenResp.
     http_post (token_form code codeVerifier state) = Response 200 body \<and>
     Unmarshal_QwenTokenResponse js body = Some tokenResp \<and>
     TokenAccessToken tokenResp \<noteq> '''' \<and>
     AccessToken cred = TokenAccessToken tokenResp"
  unfolding exchangeQwenCodeForToken_def
  by (auto simp: Let_def split: http_result.splits option.splits if_splits)

text \<open>
  C4. A response of the token endpoint with status 200 whose parsed
  \<^verbatim>\<open>access_token\<close> is empty makes \<^verbatim>\<open>exchangeQwenCodeForToken\<close> return the error
  "no access token" and no credential; and whatever the endpoint answers, a credential
  that the exchange returns never has an empty access token.
\<close>

theorem exchange_rejects_empty_access_token:
  "(http_post (token_form code codeVerifier state) = Response 200 body \<and>
    Unmarshal_QwenTokenResponse js body = Some tokenResp \<and>
    TokenAccessToken tokenResp = '''' \<longrightarrow>
    exchangeQwenCodeForToken js http_post now code codeVerifier state = Inl NoAccessToken) \<and>
   (\<forall>cred. exchangeQwenCodeForToken js http_post now code codeVerifier state = Inr cred \<longrightarrow>
      AccessToken cred \<noteq> '''')"
proof (intro conjI impI allI)
  assume "http_post (token_form code codeVerifier state) = Response 200 body \<and>
    Unmarshal_QwenTokenResponse js body = Some tokenResp \<and>
    TokenAccessToken tokenResp = ''''"
  then show "exchangeQwenCodeForToken js http_post now code codeVerifier state = Inl NoAccessToken"
    by (simp add: exchangeQwenCodeForToken_def)
next
  fix cred
  assume "exchangeQwenCodeForToken js http_post now code codeVerifier state = Inr cred"
  from exchange_cases[OF this] show "AccessToken cred \<noteq> ''''"
    by auto
qed

theorem exchange_rejects_empty_access_token_witness:
  "answer 200 ''{\"access_token\":\"\"}'' (token_form ''c1'' ''v'' ''s'') =
     Response 200 ''{\"access_token\":\"\"}'' \<and>
   TokenAccessToken (the (Unmarshal_QwenTokenResponse json_table ''{\"access_token\":\"\"}'')) = '''' \<and>
   exchangeQwenCodeForToken json_table (answer 200 ''{\"access_token\":\"\"}'') clock_2026
     ''c1'' ''v'' ''s'' = Inl NoAccessToken \<and>
   (\<exists>cred. exchangeQwenCodeForToken json_table
            (answer 200 ''{\"access_token\":\"t1\",\"expires_in\":3600}'') clock_2026
            ''c1'' ''v'' ''s'' = Inr cred \<and> AccessToken cred \<noteq> '''')"
proof -
  let ?body = "''{\"access_token\":\"\"}''"
  let ?empty = "\<lparr>TokenAccessToken = '''', TokenRefreshToken = '''', ExpiresIn = 0, TokenType = ''''\<rparr>"
  have a: "answer 200 ?body (token_form ''c1'' ''v'' ''s'') = Response 200 ?body"
    by (simp add: answer_def)
  have u: "Unmarshal_QwenTokenResponse json_table ?body = Some ?empty"
    by (simp add: json_table_def)
  have t: "TokenAccessToken ?empty = ''''"
    by simp
  have rejected: "exchangeQwenCodeForToken json_table (answer 200 ?body) clock_2026
        ''c1'' ''v'' ''s'' = Inl NoAccessToken"
    by (rule exchange_rejects_empty_access_token
        [where http_post = "answer 200 ?body" and code = "''c1''" and codeVerifier = "''v''"
           and state = "''s''" and body = ?body and js = json_table and tokenResp = ?empty
           and now = clock_2026,
         THEN conjunct1, rule_format])
      (intro conjI a u t)
  let ?good = "''{\"access_token\":\"t1\",\"expires_in\":3600}''"
  obtain cred where
    c: "exchangeQwenCodeForToken json_table (answer 200 ?good) clock_2026 ''c1'' ''v'' ''s'' =
        Inr cred"
    by (simp add: exchangeQwenCodeForToken_def answer_def json_table_def Let_def
        extractQwenAccountID_def)
  have "AccessToken cred \<noteq> ''''"
    by (rule exchange_rejects_empty_access_token
        [where http_post = "answer 200 ?good" and code = "''c1''" and codeVerifier = "''v''"
           and state = "''s''" and js = json_table and now = clock_2026,
         THEN conjunct2, rule_format, OF c])
  with c have accepted: "\<exists>cred. exchangeQwenCodeForToken json_table (answer 200 ?good)
            clock_2026 ''c1'' ''v'' ''s'' = Inr cred \<and> AccessToken cred \<noteq> ''''"
    by blast
  have t': "TokenAccessToken (the (Unmarshal_QwenTokenResponse json_table ?body)) = ''''"
    unfolding u by simp
  show ?thesis
    by (intro conjI a t' rejected accepted)
qed

section \<open>Base64: decoding what was encoded\<close>

lemma decodeMap_nth:
  "distinct al \<Longrightarrow> i < length al \<Longrightarrow> decodeMap al (al ! i) = Some i"
proof (induction al arbitrary: i)
  case Nil
  then show ?case by simp
next
  case (Cons x xs)
  show ?case
  proof (cases i)
    case 0
    then show ?thesis by simp
  next
    case (Suc j)
    with Cons.prems have "j < length xs" and "xs ! j \<in> set xs" and "x \<notin> set xs"
      by auto
    with Cons.IH[of j] Cons.prems Suc show ?thesis by auto
  qed
qed

lemma sextets_of_24_bits:
  fixes val :: nat
  assumes "val < 16777216"
  shows "(val div 262144 mod 64) * 262144 + (val div 4096 mod 64) * 4096 +
         (val div 64 mod 64) * 64 + val mod 64 = val"
proof -
  define q1 where "q1 = val div 64"
  define q2 where "q2 = q1 div 64"
  define q3 where "q3 = q2 div 64"
  have d2: "val div 4096 = q2"
    unfolding q2_def q1_def by (simp add: div_mult2_eq)
  have d3: "val div 262144 = q3"
    unfolding q3_def q2_def q1_def by (simp add: div_mult2_eq)
  have "q3 < 64"
    using assms unfolding d3[symmetric] by simp
  then have m3: "q3 mod 64 = q3" by simp
  have e0: "val = q1 * 64 + val mod 64"
    unfolding q1_def by simp
  have e1: "q1 = q2 * 64 + q1 mod 64"
    unfolding q2_def by simp
  have e2: "q2 = q3 * 64 + q2 mod 64"
    unfolding q3_def by simp
  have "q3 * 262144 + (q2 mod 64) * 4096 + (q1 mod 64) * 64 + val mod 64 = val"
    using e0 e1 e2 by linarith
  then show ?thesis
    unfolding d2 d3 m3 q1_def[symmetric] .
qed

lemma digit_div_mod:
  fixes q r m :: nat
  assumes "r < m"
  shows "(q * m + r) div m = q" and "(q * m + r) mod m = r"
  using assms by simp_all

lemma bytes_of_24_bits:
  fixes a b c :: nat
  assumes "a < 256" "b < 256" "c < 256"
  shows "(a * 65536 + b * 256 + c) div 65536 mod 256 = a"
    and "(a * 65536 + b * 256 + c) div 256 mod 256 = b"
    and "(a * 65536 + b * 256 + c) mod 256 = c"
proof -
  have r: "b * 256 + c < 65536" using assms by linarith
  have e1: "a * 65536 + b * 256 + c = a * 65536 + (b * 256 + c)" by simp
  have e2: "a * 65536 + b * 256 + c = (a * 256 + b) * 256 + c" by simp
  have "(a * 65536 + (b * 256 + c)) div 65536 = a"
    using r by (rule digit_div_mod(1))
  with assms show "(a * 65536 + b * 256 + c) div 65536 mod 256 = a"
    unfolding e1 by simp
  have "((a * 256 + b) * 256 + c) div 256 = a * 256 + b"
    using assms(3) by (rule digit_div_mod(1))
  moreover have "(a * 256 + b) mod 256 = b"
    using assms(2) by (rule digit_div_mod(2))
  ultimately show "(a * 65536 + b * 256 + c) div 256 mod 256 = b"
    unfolding e2 by simp
  show "(a * 65536 + b * 256 + c) mod 256 = c"
    unfolding e2 using assms(3) by (rule digit_div_mod(2))
qed

lemma decodeQuanta_full:
  assumes al: "distinct al" "length al = 64" "CHR ''='' \<notin> set al"
  shows "decodeQuanta al (EncodeToString_nopad al [a, b, c] @ R) =
         map_option (\<lambda>bs. a # b # c # bs) (decodeQuanta al R)"
proof -
  define val :: nat where "val = of_char a * 65536 + of_char b * 256 + of_char c"
  define s0 where "s0 = val div 262144 mod 64"
  define s1 where "s1 = val div 4096 mod 64"
  define s2 where "s2 = val div 64 mod 64"
  define s3 where "s3 = val mod 64"
  have enc: "EncodeToString_nopad al [a, b, c] = [al ! s0, al ! s1, al ! s2, al ! s3]"
    by (simp add: Let_def val_def s0_def s1_def s2_def s3_def)
  have lt: "s0 < length al" "s1 < length al" "s2 < length al" "s3 < length al"
    by (simp_all add: al s0_def s1_def s2_def s3_def)
  have dm: "decodeMap al (al ! s0) = Some s0" "decodeMap al (al ! s1) = Some s1"
    "decodeMap al (al ! s2) = Some s2" "decodeMap al (al ! s3) = Some s3"
    using al(1) lt by (simp_all add: decodeMap_nth)
  have ne: "al ! s2 \<noteq> CHR ''=''" "al ! s3 \<noteq> CHR ''=''"
    using al(3) lt nth_mem by metis+
  have "of_char a < (256::nat)" "of_char b < (256::nat)" "of_char c < (256::nat)"
    by simp_all
  then have bound: "val < 16777216"
    unfolding val_def by linarith
  have rec: "s0 * 262144 + s1 * 4096 + s2 * 64 + s3 = val"
    unfolding s0_def s1_def s2_def s3_def by (rule sextets_of_24_bits[OF bound])
  have bytes: "char_of (val div 65536 mod 256) = a" "char_of (val div 256 mod 256) = b"
    "char_of (val mod 256) = c"
    unfolding val_def
    by (simp_all only: bytes_of_24_bits[of "of_char a" "of_char b" "of_char c", OF nat_of_char_less_256 nat_of_char_less_256 nat_of_char_less_256] char_of_char)
  then have bytes': "char_of (val div 65536) = a" "char_of (val div 256) = b" "char_of val = c"
    by simp_all
  show ?thesis
    unfolding enc by (simp add: dm ne rec bytes')
qed

lemma decodeQuanta_two:
  assumes al: "distinct al" "length al = 64" "CHR ''='' \<notin> set al"
  shows "decodeQuanta al (EncodeToString_nopad al [a, b] @ ''='') = Some [a, b]"
proof -
  define val :: nat where "val = of_char a * 65536 + of_char b * 256"
  define s0 where "s0 = val div 262144 mod 64"
  define s1 where "s1 = val div 4096 mod 64"
  define s2 where "s2 = val div 64 mod 64"
  have enc: "EncodeToString_nopad al [a, b] = [al ! s0, al ! s1, al ! s2]"
    by (simp add: Let_def val_def s0_def s1_def s2_def)
  have lt: "s0 < length al" "s1 < length al" "s2 < length al"
    by (simp_all add: al s0_def s1_def s2_def)
  have dm: "decodeMap al (al ! s0) = Some s0" "decodeMap al (al ! s1) = Some s1"
    "decodeMap al (al ! s2) = Some s2"
    using al(1) lt by (simp_all add: decodeMap_nth)
  have ne: "al ! s2 \<noteq> CHR ''=''"
    using al(3) lt nth_mem by metis
  have "of_char a < (256::nat)" "of_char b < (256::nat)"
    by simp_all
  then have bound: "val < 16777216"
    unfolding val_def by linarith
  have "val = (of_char a * 1024 + of_char b * 4) * 64"
    unfolding val_def by simp
  then have low: "val mod 64 = 0"
    by simp
  have "s0 * 262144 + s1 * 4096 + s2 * 64 + val mod 64 = val"
    unfolding s0_def s1_def s2_def by (rule sextets_of_24_bits[OF bound])
  with low have rec: "s0 * 262144 + s1 * 4096 + s2 * 64 = val"
    by simp
  have v: "val = of_char a * 65536 + of_char b * 256 + 0"
    unfolding val_def by simp
  have "val div 65536 mod 256 = of_char a" "val div 256 mod 256 = of_char b"
    unfolding v by (rule bytes_of_24_bits; simp)+
  then have "char_of (val div 65536 mod 256) = a" "char_of (val div 256 mod 256) = b"
    by (simp_all only: char_of_char)
  then have bytes': "char_of (val div 65536) = a" "char_of (val div 256) = b"
    by simp_all
  show ?thesis
    unfolding enc by (simp add: dm ne rec bytes')
qed

lemma decodeQuanta_one:
  assumes al: "distinct al" "length al = 64" "CHR ''='' \<notin> set al"
  shows "decodeQuanta al (EncodeToString_nopad al [a] @ ''=='') = Some [a]"
proof -
  define val :: nat where "val = of_char a * 65536"
  define s0 where "s0 = val div 262144 mod 64"
  define s1 where "s1 = val div 4096 mod 64"
  have enc: "EncodeToString_nopad al [a] = [al ! s0, al ! s1]"
    by (simp add: Let_def val_def s0_def s1_def)
  have lt: "s0 < length al" "s1 < length al"
    by (simp_all add: al s0_def s1_def)
  have dm: "decodeMap al (al ! s0) = Some s0" "decodeMap al (al ! s1) = Some s1"
    using al(1) lt by (simp_all add: decodeMap_nth)
  have "of_char a < (256::nat)"
    by simp
  then have bound: "val < 16777216"
    unfolding val_def by linarith
  have "val = (of_char a * 1024) * 64"
    unfolding val_def by simp
  then have low: "val mod 64 = 0" and "val div 64 = of_char a * 1024"
    by simp_all
  then have "val div 64 = (of_char a * 16) * 64"
    by simp
  then have mid: "val div 64 mod 64 = 0"
    by simp
  have "s0 * 262144 + s1 * 4096 + (val div 64 mod 64) * 64 + val mod 64 = val"
    unfolding s0_def s1_def by (rule sextets_of_24_bits[OF bound])
  with low mid have rec: "s0 * 262144 + s1 * 4096 = val"
    by simp
  have v: "val = of_char a * 65536 + 0 * 256 + 0"
    unfolding val_def by simp
  have "val div 65536 mod 256 = of_char a"
    unfolding v by (rule bytes_of_24_bits; simp)
  then have "char_of (val div 65536 mod 256) = a"
    by (simp only: char_of_char)
  then have bytes': "char_of (val div 65536) = a"
    by simp
  show ?thesis
    unfolding enc by (simp add: dm rec bytes')
qed

lemma EncodeToString_nopad_append3:
  "EncodeToString_nopad al (a # b # c # rest) =
   EncodeToString_nopad al [a, b, c] @ EncodeToString_nopad al rest"
  by (simp add: Let_def)

lemma decode_encode_nopad:
  assumes "distinct al" "length al = 64" "CHR ''='' \<notin> set al"
  shows "decodeQuanta al
           (let e = EncodeToString_nopad al bs in
            if length e mod 4 = 2 then e @ ''==''
            else if length e mod 4 = 3 then e @ ''=''
            else e) = Some bs"
  using assms
proof (induction al bs rule: EncodeToString_nopad.induct)
  case (1 al a b c rest)
  let ?e = "EncodeToString_nopad al rest"
  let ?q = "EncodeToString_nopad al [a, b, c]"
  have len: "length (?q @ ?e) mod 4 = length ?e mod 4"
    by (simp add: Let_def)
  have "decodeQuanta al
          (let e = ?q @ ?e in
           if length e mod 4 = 2 then e @ ''==''
           else if length e mod 4 = 3 then e @ ''=''
           else e) =
        decodeQuanta al (?q @
          (let e = ?e in
           if length e mod 4 = 2 then e @ ''==''
           else if length e mod 4 = 3 then e @ ''=''
           else e))"
    unfolding Let_def len by simp
  also have "\<dots> = Some (a # b # c # rest)"
    using "1.IH"[OF refl "1.prems"] decodeQuanta_full[OF "1.prems"] by simp
  finally have step: "decodeQuanta al
          (let e = ?q @ ?e in
           if length e mod 4 = 2 then e @ ''==''
           else if length e mod 4 = 3 then e @ ''=''
           else e) = Some (a # b # c # rest)" .
  show ?case
    by (subst EncodeToString_nopad_append3) (rule step)
next
  case (2 al a b)
  have "length (EncodeToString_nopad al [a, b]) = 3"
    by (simp add: Let_def)
  with decodeQuanta_two[OF "2.prems"] show ?case
    by (simp only: Let_def) simp
next
  case (3 al a)
  have "length (EncodeToString_nopad al [a]) = 2"
    by (simp add: Let_def)
  with decodeQuanta_one[OF "3.prems"] show ?case
    by (simp only: Let_def) simp
next
  case (4 al)
  then show ?case by simp
qed

lemma length_encodeStd: "length encodeStd = 64"
  by (simp add: encodeStd_def)

lemma distinct_encodeStd: "distinct encodeStd"
  by (simp add: encodeStd_def)

lemma pad_notin_encodeStd: "CHR ''='' \<notin> set encodeStd"
  by (simp add: encodeStd_def)

lemma set_EncodeToString_nopad:
  "length al = 64 \<Longrightarrow> set (EncodeToString_nopad al bs) \<subseteq> set al"
  by (induction al bs rule: EncodeToString_nopad.induct) (simp_all add: Let_def)

lemma encodeURL_nth:
  assumes "i < 64"
  shows "encodeURL ! i = CHR ''-'' \<or> encodeURL ! i = CHR ''_'' \<or> encodeURL ! i = encodeStd ! i"
proof -
  have u: "encodeURL = take 62 encodeStd @ ''-_''"
    by (simp add: encodeURL_def encodeStd_def)
  show ?thesis
  proof (cases "i < 62")
    case True
    then show ?thesis
      unfolding u by (simp add: nth_append length_encodeStd)
  next
    case False
    with assms have "i = 62 \<or> i = 63" by linarith
    then show ?thesis
      unfolding u by (auto simp: nth_append length_encodeStd)
  qed
qed

lemma url_nth_std:
  "CHR ''-'' \<noteq> encodeURL ! (n mod 64) \<Longrightarrow> CHR ''_'' \<noteq> encodeURL ! (n mod 64) \<Longrightarrow>
   encodeURL ! (n mod 64) = encodeStd ! (n mod 64)"
  using encodeURL_nth[of "n mod 64"] by auto

lemma EncodeToString_nopad_cong:
  assumes "\<And>n. x \<noteq> al ! (n mod 64) \<Longrightarrow> y \<noteq> al ! (n mod 64) \<Longrightarrow>
             al ! (n mod 64) = al' ! (n mod 64)"
    and "x \<notin> set (EncodeToString_nopad al bs)"
    and "y \<notin> set (EncodeToString_nopad al bs)"
  shows "EncodeToString_nopad al bs = EncodeToString_nopad al' bs"
  using assms
proof (induction al bs rule: EncodeToString_nopad.induct)
  case (1 al a b c rest)
  let ?v = "of_char a * 65536 + of_char b * 256 + (of_char c :: nat)"
  from "1.prems"(2,3) have
    n: "x \<noteq> al ! (?v div 262144 mod 64)" "y \<noteq> al ! (?v div 262144 mod 64)"
       "x \<noteq> al ! (?v div 4096 mod 64)" "y \<noteq> al ! (?v div 4096 mod 64)"
       "x \<noteq> al ! (?v div 64 mod 64)" "y \<noteq> al ! (?v div 64 mod 64)"
       "x \<noteq> al ! (?v mod 64)" "y \<noteq> al ! (?v mod 64)"
    and r: "x \<notin> set (EncodeToString_nopad al rest)" "y \<notin> set (EncodeToString_nopad al rest)"
    by (simp_all add: Let_def)
  have "EncodeToString_nopad al rest = EncodeToString_nopad al' rest"
    using "1.IH"[OF refl "1.prems"(1) r] .
  moreover have "al ! (?v div 262144 mod 64) = al' ! (?v div 262144 mod 64)"
    "al ! (?v div 4096 mod 64) = al' ! (?v div 4096 mod 64)"
    "al ! (?v div 64 mod 64) = al' ! (?v div 64 mod 64)"
    "al ! (?v mod 64) = al' ! (?v mod 64)"
    using n by (auto intro: "1.prems"(1))
  ultimately show ?case
    by (simp only: EncodeToString_nopad.simps Let_def)
next
  case (2 al a b)
  let ?v = "of_char a * 65536 + (of_char b :: nat) * 256"
  from "2.prems"(2,3) have
    n: "x \<noteq> al ! (?v div 262144 mod 64)" "y \<noteq> al ! (?v div 262144 mod 64)"
       "x \<noteq> al ! (?v div 4096 mod 64)" "y \<noteq> al ! (?v div 4096 mod 64)"
       "x \<noteq> al ! (?v div 64 mod 64)" "y \<noteq> al ! (?v div 64 mod 64)"
    by (simp_all add: Let_def)
  have "al ! (?v div 262144 mod 64) = al' ! (?v div 262144 mod 64)"
    "al ! (?v div 4096 mod 64) = al' ! (?v div 4096 mod 64)"
    "al ! (?v div 64 mod 64) = al' ! (?v div 64 mod 64)"
    using n by (auto intro: "2.prems"(1))
  then show ?case
    by (simp only: EncodeToString_nopad.simps Let_def)
next
  case (3 al a)
  let ?v = "(of_char a :: nat) * 65536"
  from "3.prems"(2,3) have
    n: "x \<noteq> al ! (?v div 262144 mod 64)" "y \<noteq> al ! (?v div 262144 mod 64)"
       "x \<noteq> al ! (?v div 4096 mod 64)" "y \<noteq> al ! (?v div 4096 mod 64)"
    by (simp_all add: Let_def)
  have "al ! (?v div 262144 mod 64) = al' ! (?v div 262144 mod 64)"
    "al ! (?v div 4096 mod 64) = al' ! (?v div 4096 mod 64)"
    using n by (auto intro: "3.prems"(1))
  then show ?case
    by (simp only: EncodeToString_nopad.simps Let_def)
next
  case (4 al)
  then show ?case by simp
qed

lemma EncodeToString_nopad_URL_Std:
  "CHR ''-'' \<notin> set (EncodeToString_nopad encodeURL bs) \<Longrightarrow>
   CHR ''_'' \<notin> set (EncodeToString_nopad encodeURL bs) \<Longrightarrow>
   EncodeToString_nopad encodeURL bs = EncodeToString_nopad encodeStd bs"
  by (rule EncodeToString_nopad_cong[where x = "CHR ''-''" and y = "CHR ''_''"])
    (rule url_nth_std, assumption+)

lemma filter_newlines_id:
  assumes "CHR 0x0A \<notin> set s" "CHR 0x0D \<notin> set s"
  shows "filter (\<lambda>c. c \<noteq> CHR 0x0A \<and> c \<noteq> CHR 0x0D) s = s"
  using assms by (induction s) auto

lemma DecodeString_std_encode:
  "DecodeString_std
     (let e = EncodeToString_nopad encodeStd bs in
      if length e mod 4 = 2 then e @ ''==''
      else if length e mod 4 = 3 then e @ ''=''
      else e) = Some bs"
proof -
  let ?e = "EncodeToString_nopad encodeStd bs"
  let ?p = "if length ?e mod 4 = 2 then ?e @ ''==''
      else if length ?e mod 4 = 3 then ?e @ ''=''
      else ?e"
  have sub: "set ?e \<subseteq> set encodeStd"
    by (rule set_EncodeToString_nopad[OF length_encodeStd])
  have "CHR 0x0A \<notin> set encodeStd" "CHR 0x0D \<notin> set encodeStd"
    by (simp_all add: encodeStd_def)
  with sub have "CHR 0x0A \<notin> set ?e" "CHR 0x0D \<notin> set ?e"
    by blast+
  then have "CHR 0x0A \<notin> set ?p" "CHR 0x0D \<notin> set ?p"
    by simp_all
  then have "filter (\<lambda>c. c \<noteq> CHR 0x0A \<and> c \<noteq> CHR 0x0D) ?p = ?p"
    by (rule filter_newlines_id)
  then have "DecodeString_std ?p = decodeQuanta encodeStd ?p"
    unfolding DecodeString_std_def by simp
  also have "\<dots> = Some bs"
    using decode_encode_nopad[OF distinct_encodeStd length_encodeStd pad_notin_encodeStd, of bs]
    unfolding Let_def .
  finally show ?thesis
    unfolding Let_def .
qed

lemma Split_no_sep: "sep \<notin> set s \<Longrightarrow> Split s sep = [s]"
  by (induction s) auto

lemma Split_append_sep:
  "sep \<notin> set a \<Longrightarrow> Split (a @ sep # r) sep = a # Split r sep"
  by (induction a) auto

lemma Split_segment:
  assumes "sep \<notin> set a" "sep \<notin> set p"
  shows "Split (a @ sep # p) sep = [a, p]"
    and "\<exists>ps. Split (a @ sep # p @ sep # r) sep = a # p # ps"
  using assms by (simp_all add: Split_append_sep Split_no_sep)

section \<open>Identity extraction\<close>

lemmas eval_base64 = DecodeString_std_def encodeStd_def char_of_def bit_Suc_0_iff

lemma extract_via_payload:
  "extractQwenAccountID js tok =
     (case token_payload tok of
        None \<Rightarrow> ''''
      | Some decoded \<Rightarrow>
          (case Unmarshal_claims js decoded of
             None \<Rightarrow> ''''
           | Some claims \<Rightarrow> (case claims ''sub'' of Some (GoString sub) \<Rightarrow> sub | _ \<Rightarrow> '''')))"
  unfolding extractQwenAccountID_def token_payload_def
  by (simp add: Let_def)

lemma dot_notin_base64URLEncode: "CHR ''.'' \<notin> set (base64URLEncode bs)"
proof -
  have "length encodeURL = 64" "CHR ''.'' \<notin> set encodeURL"
    by (simp_all add: encodeURL_def)
  with set_EncodeToString_nopad[of encodeURL bs] show ?thesis
    unfolding base64URLEncode_def by blast
qed

lemma token_payload_segment:
  assumes "Split tok (CHR ''.'') = hdr # base64URLEncode bs # ps"
    and "CHR ''-'' \<notin> set (base64URLEncode bs)"
    and "CHR ''_'' \<notin> set (base64URLEncode bs)"
  shows "token_payload tok = Some bs"
proof -
  have e: "base64URLEncode bs = EncodeToString_nopad encodeStd bs"
    using assms(2,3) unfolding base64URLEncode_def by (rule EncodeToString_nopad_URL_Std)
  show ?thesis
    unfolding token_payload_def assms(1) e
    using DecodeString_std_encode[of bs] by (simp add: Let_def)
qed

lemma token_payload_encoded:
  assumes "CHR ''.'' \<notin> set hdr"
    and "CHR ''-'' \<notin> set (base64URLEncode bs)"
    and "CHR ''_'' \<notin> set (base64URLEncode bs)"
  shows "token_payload (hdr @ ''.'' @ base64URLEncode bs @ ''.'' @ sig) = Some bs"
    and "token_payload (hdr @ ''.'' @ base64URLEncode bs) = Some bs"
proof -
  obtain ps where "Split (hdr @ ''.'' @ base64URLEncode bs @ ''.'' @ sig) (CHR ''.'') =
      hdr # base64URLEncode bs # ps"
    using Split_segment(2)[OF assms(1) dot_notin_base64URLEncode, of bs sig] by auto
  then show "token_payload (hdr @ ''.'' @ base64URLEncode bs @ ''.'' @ sig) = Some bs"
    using assms(2,3) by (rule token_payload_segment)
  have "Split (hdr @ ''.'' @ base64URLEncode bs) (CHR ''.'') = [hdr, base64URLEncode bs]"
    using Split_segment(1)[OF assms(1) dot_notin_base64URLEncode, of bs] by simp
  then show "token_payload (hdr @ ''.'' @ base64URLEncode bs) = Some bs"
    using assms(2,3) by (rule token_payload_segment)
qed

lemma token_payload_no_dot: "CHR ''.'' \<notin> set tok \<Longrightarrow> token_payload tok = None"
  by (simp add: token_payload_def Split_no_sep)

lemma exchange_succeeds:
  assumes "http_post (token_form code codeVerifier state) = Response 200 body"
    and "Unmarshal_QwenTokenResponse js body = Some tokenResp"
    and "TokenAccessToken tokenResp \<noteq> ''''"
  shows "exchangeQwenCodeForToken js http_post now code codeVerifier state =
         Inr \<lparr>AccessToken = TokenAccessToken tokenResp,
              RefreshToken = TokenRefreshToken tokenResp,
              AccountID = extractQwenAccountID js (TokenAccessToken tokenResp),
              ExpiresAt = (if 0 < sint (ExpiresIn tokenResp)
                           then now + sint (ExpiresIn tokenResp * Second) else 0),
              Provider = ''qwen'', AuthMethod = ''oauth''\<rparr>"
  using assms unfolding exchangeQwenCodeForToken_def
  by (simp add: Let_def)

text \<open>
  C5 as stated fails twice. The token \<^verbatim>\<open>abc.eyJzdWIiOiJ-fn4ifQ.sig\<close> has the URL-safe
  base64 encoding of \<^verbatim>\<open>{"sub":"~~~"}\<close> as its second segment, and the result is
  empty: the source decodes with \<^verbatim>\<open>base64.StdEncoding\<close>, whose alphabet has no
  \<open>-\<close>. And the token \<^verbatim>\<open>abc.eyJzdWIiOiJ1MSJ9\<close>, of two segments only, gives
  \<open>u1\<close>: the source asks for two segments, not three.
\<close>

theorem extractQwenAccountID_best_effort_counterexample:
  "base64URLEncode ''{\"sub\":\"~~~\"}'' = ''eyJzdWIiOiJ-fn4ifQ'' \<and>
   the (Unmarshal_claims json_table ''{\"sub\":\"~~~\"}'') ''sub'' = Some (GoString ''~~~'') \<and>
   extractQwenAccountID json_table ''abc.eyJzdWIiOiJ-fn4ifQ.sig'' = '''' \<and>
   Split ''abc.eyJzdWIiOiJ1MSJ9'' (CHR ''.'') = [''abc'', ''eyJzdWIiOiJ1MSJ9''] \<and>
   extractQwenAccountID json_table ''abc.eyJzdWIiOiJ1MSJ9'' = ''u1''"
proof (intro conjI)
  show "base64URLEncode ''{\"sub\":\"~~~\"}'' = ''eyJzdWIiOiJ-fn4ifQ''"
    by (simp add: base64URLEncode_def encodeURL_def)
  show "the (Unmarshal_claims json_table ''{\"sub\":\"~~~\"}'') ''sub'' = Some (GoString ''~~~'')"
    by (simp add: json_table_def)
  show "extractQwenAccountID json_table ''abc.eyJzdWIiOiJ-fn4ifQ.sig'' = ''''"
    by (simp add: extractQwenAccountID_def json_table_def eval_base64)
  show "Split ''abc.eyJzdWIiOiJ1MSJ9'' (CHR ''.'') = [''abc'', ''eyJzdWIiOiJ1MSJ9'']"
    by simp
  show "extractQwenAccountID json_table ''abc.eyJzdWIiOiJ1MSJ9'' = ''u1''"
    by (simp add: extractQwenAccountID_def json_table_def eval_base64)
qed

text \<open>
  C5, as amended. \<^verbatim>\<open>extractQwenAccountID\<close> returns a string for every token and
  raises nothing. For a token of two or more dot-separated segments whose second segment
  is the unpadded URL-safe base64 encoding of some bytes, where that encoding contains
  neither \<open>-\<close> nor \<open>_\<close>, and \<^verbatim>\<open>json.Unmarshal\<close> reads the bytes as a map with a
  string \<open>sub\<close>, the result is that \<open>sub\<close> (with or without a third segment). The
  result is empty for a token without a dot; for a token whose second segment has
  neither \<open>-\<close> nor \<open>_\<close> and does not decode; for decoded bytes that
  \<^verbatim>\<open>json.Unmarshal\<close> rejects; and for a map without \<open>sub\<close>. The token exchange
  succeeds whatever the extraction gives, with that result as \<open>AccountID\<close>.
\<close>

theorem extractQwenAccountID_best_effort:
  "(CHR ''.'' \<notin> set hdr \<and>
    CHR ''-'' \<notin> set (base64URLEncode payload) \<and>
    CHR ''_'' \<notin> set (base64URLEncode payload) \<and>
    Unmarshal_claims js payload = Some claims \<and> claims ''sub'' = Some (GoString sub) \<longrightarrow>
      extractQwenAccountID js (hdr @ ''.'' @ base64URLEncode payload @ ''.'' @ sig) = sub \<and>
      extractQwenAccountID js (hdr @ ''.'' @ base64URLEncode payload) = sub) \<and>
   (CHR ''.'' \<notin> set tok \<longrightarrow> extractQwenAccountID js tok = '''') \<and>
   (2 \<le> length (Split tok (CHR ''.'')) \<and>
    CHR ''-'' \<notin> set (Split tok (CHR ''.'') ! 1) \<and>
    CHR ''_'' \<notin> set (Split tok (CHR ''.'') ! 1) \<and>
    token_payload tok = None \<longrightarrow> extractQwenAccountID js tok = '''') \<and>
   (token_payload tok = Some decoded \<and> Unmarshal_claims js decoded = None \<longrightarrow>
      extractQwenAccountID js tok = '''') \<and>
   (token_payload tok = Some decoded \<and> Unmarshal_claims js decoded = Some claims' \<and>
    claims' ''sub'' = None \<longrightarrow> extractQwenAccountID js tok = '''') \<and>
   (http_post (token_form code codeVerifier state) = Response 200 body \<and>
    Unmarshal_QwenTokenResponse js body = Some tokenResp \<and>
    TokenAccessToken tokenResp \<noteq> '''' \<longrightarrow>
      (\<exists>cred. exchangeQwenCodeForToken js http_post now code codeVerifier state = Inr cred \<and>
         AccountID cred = extractQwenAccountID js (TokenAccessToken tokenResp)))"
proof (intro conjI impI)
  assume h: "CHR ''.'' \<notin> set hdr \<and>
    CHR ''-'' \<notin> set (base64URLEncode payload) \<and>
    CHR ''_'' \<notin> set (base64URLEncode payload) \<and>
    Unmarshal_claims js payload = Some claims \<and> claims ''sub'' = Some (GoString sub)"
  then have "CHR ''.'' \<notin> set hdr" "CHR ''-'' \<notin> set (base64URLEncode payload)"
    "CHR ''_'' \<notin> set (base64URLEncode payload)"
    by blast+
  then have p: "token_payload (hdr @ ''.'' @ base64URLEncode payload @ ''.'' @ sig) = Some payload"
    "token_payload (hdr @ ''.'' @ base64URLEncode payload) = Some payload"
    by (rule token_payload_encoded)+
  from h show "extractQwenAccountID js (hdr @ ''.'' @ base64URLEncode payload @ ''.'' @ sig) = sub"
    by (simp only: extract_via_payload p) simp
  from h show "extractQwenAccountID js (hdr @ ''.'' @ base64URLEncode payload) = sub"
    by (simp only: extract_via_payload p) simp
next
  assume "CHR ''.'' \<notin> set tok"
  then show "extractQwenAccountID js tok = ''''"
    by (simp add: extract_via_payload token_payload_no_dot)
next
  assume "2 \<le> length (Split tok (CHR ''.'')) \<and>
    CHR ''-'' \<notin> set (Split tok (CHR ''.'') ! 1) \<and>
    CHR ''_'' \<notin> set (Split tok (CHR ''.'') ! 1) \<and>
    token_payload tok = None"
  then show "extractQwenAccountID js tok = ''''"
    by (simp add: extract_via_payload)
next
  assume "token_payload tok = Some decoded \<and> Unmarshal_claims js decoded = None"
  then show "extractQwenAccountID js tok = ''''"
    by (simp add: extract_via_payload)
next
  assume "token_payload tok = Some decoded \<and> Unmarshal_claims js decoded = Some claims' \<and>
    claims' ''sub'' = None"
  then show "extractQwenAccountID js tok = ''''"
    by (simp add: extract_via_payload)
next
  assume "http_post (token_form code codeVerifier state) = Response 200 body \<and>
    Unmarshal_QwenTokenResponse js body = Some tokenResp \<and>
    TokenAccessToken tokenResp \<noteq> ''''"
  then show "\<exists>cred. exchangeQwenCodeForToken js http_post now code codeVerifier state = Inr cred \<and>
         AccountID cred = extractQwenAccountID js (TokenAccessToken tokenResp)"
    by (simp add: exchange_succeeds)
qed

theorem extractQwenAccountID_best_effort_witness:
  "extractQwenAccountID json_table
     (''abc'' @ ''.'' @ base64URLEncode ''{\"sub\":\"u1\"}'' @ ''.'' @ ''sig'') = ''u1'' \<and>
   extractQwenAccountID json_table (''abc'' @ ''.'' @ base64URLEncode ''{\"sub\":\"u1\"}'') = ''u1'' \<and>
   extractQwenAccountID json_table ''opaque-token'' = '''' \<and>
   token_payload ''abc.e.sig'' = None \<and>
   extractQwenAccountID json_table ''abc.e.sig'' = '''' \<and>
   token_payload ''abc.eA.sig'' = Some ''x'' \<and>
   extractQwenAccountID json_table ''abc.eA.sig'' = '''' \<and>
   token_payload ''abc.e30.sig'' = Some ''{}'' \<and>
   extractQwenAccountID json_table ''abc.e30.sig'' = '''' \<and>
   (\<exists>cred. exchangeQwenCodeForToken json_table
            (answer 200 ''{\"access_token\":\"t1\",\"expires_in\":3600}'') clock_2026
            ''c1'' ''v'' ''s'' = Inr cred \<and>
          AccountID cred = extractQwenAccountID json_table ''t1'')"
proof -
  let ?p = "''{\"sub\":\"u1\"}''"
  have e: "base64URLEncode ?p = ''eyJzdWIiOiJ1MSJ9''"
    by (simp add: base64URLEncode_def encodeURL_def)
  have h1: "CHR ''.'' \<notin> set ''abc''" "CHR ''-'' \<notin> set (base64URLEncode ?p)"
    "CHR ''_'' \<notin> set (base64URLEncode ?p)"
    unfolding e by simp_all
  have u1: "Unmarshal_claims json_table ?p = Some [''sub'' \<mapsto> GoString ''u1'']"
    "[''sub'' \<mapsto> GoString ''u1''] ''sub'' = Some (GoString ''u1'')"
    by (simp_all add: json_table_def)
  note T1 = extractQwenAccountID_best_effort
      [where hdr = "''abc''" and payload = ?p and js = json_table and sub = "''u1''"
         and claims = "[''sub'' \<mapsto> GoString ''u1'']" and sig = "''sig''",
       THEN conjunct1, rule_format]
  have c1: "extractQwenAccountID json_table
     (''abc'' @ ''.'' @ base64URLEncode ?p @ ''.'' @ ''sig'') = ''u1'' \<and>
   extractQwenAccountID json_table (''abc'' @ ''.'' @ base64URLEncode ?p) = ''u1''"
    by (rule T1) (intro conjI h1 u1)
  have d2: "CHR ''.'' \<notin> set ''opaque-token''"
    by simp
  have c2: "extractQwenAccountID json_table ''opaque-token'' = ''''"
    using d2
    by (rule extractQwenAccountID_best_effort
        [where tok = "''opaque-token''" and js = json_table,
         THEN conjunct2, THEN conjunct1, rule_format])
  have p3: "token_payload ''abc.e.sig'' = None"
    by (simp add: token_payload_def eval_base64)
  have s3: "Split ''abc.e.sig'' (CHR ''.'') = [''abc'', ''e'', ''sig'']"
    by simp
  have h3: "2 \<le> length (Split ''abc.e.sig'' (CHR ''.''))"
    "CHR ''-'' \<notin> set (Split ''abc.e.sig'' (CHR ''.'') ! 1)"
    "CHR ''_'' \<notin> set (Split ''abc.e.sig'' (CHR ''.'') ! 1)"
    unfolding s3 by simp_all
  have c3: "extractQwenAccountID json_table ''abc.e.sig'' = ''''"
    by (rule extractQwenAccountID_best_effort
        [where tok = "''abc.e.sig''" and js = json_table,
         THEN conjunct2, THEN conjunct2, THEN conjunct1, rule_format])
      (intro conjI h3 p3)
  have p4: "token_payload ''abc.eA.sig'' = Some ''x''"
    by (simp add: token_payload_def eval_base64)
  have u4: "Unmarshal_claims json_table ''x'' = None"
    by (simp add: json_table_def)
  have c4: "extractQwenAccountID json_table ''abc.eA.sig'' = ''''"
    by (rule extractQwenAccountID_best_effort
        [where tok = "''abc.eA.sig''" and js = json_table and decoded = "''x''",
         THEN conjunct2, THEN conjunct2, THEN conjunct2, THEN conjunct1, rule_format])
      (intro conjI p4 u4)
  have p5: "token_payload ''abc.e30.sig'' = Some ''{}''"
    by (simp add: token_payload_def eval_base64)
  have u5: "Unmarshal_claims json_table ''{}'' = Some Map.empty"
    "Map.empty ''sub'' = (None :: go_value option)"
    by (simp_all add: json_table_def)
  have c5: "extractQwenAccountID json_table ''abc.e30.sig'' = ''''"
    by (rule extractQwenAccountID_best_effort
        [where tok = "''abc.e30.sig''" and js = json_table and decoded = "''{}''"
           and claims' = Map.empty,
         THEN conjunct2, THEN conjunct2, THEN conjunct2, THEN conjunct2, THEN conjunct1,
         rule_format])
      (intro conjI p5 u5)
  let ?body = "''{\"access_token\":\"t1\",\"expires_in\":3600}''"
  let ?tr = "\<lparr>TokenAccessToken = ''t1'', TokenRefreshToken = '''', ExpiresIn = 3600,
                   TokenType = ''''\<rparr>"
  have a6: "answer 200 ?body (token_form ''c1'' ''v'' ''s'') = Response 200 ?body"
    by (simp add: answer_def)
  have u6: "Unmarshal_QwenTokenResponse json_table ?body = Some ?tr"
    by (simp add: json_table_def)
  have n6: "TokenAccessToken ?tr \<noteq> ''''"
    by simp
  have t6: "TokenAccessToken ?tr = ''t1''"
    by simp
  have c6: "\<exists>cred. exchangeQwenCodeForToken json_table (answer 200 ?body) clock_2026
            ''c1'' ''v'' ''s'' = Inr cred \<and>
          AccountID cred = extractQwenAccountID json_table (TokenAccessToken ?tr)"
    by (rule extractQwenAccountID_best_effort
        [where http_post = "answer 200 ?body" and code = "''c1''" and codeVerifier = "''v''"
           and state = "''s''" and body = ?body and js = json_table and tokenResp = ?tr
           and now = clock_2026,
         THEN conjunct2, THEN conjunct2, THEN conjunct2, THEN conjunct2, THEN conjunct2,
         rule_format])
      (intro conjI a6 u6 n6)
  show ?thesis
    using c6 unfolding t6
    by (intro conjI c1[THEN conjunct1] c1[THEN conjunct2] c2 p3 c3 p4 c4 p5 c5)
qed

text \<open>
  C10. \<^verbatim>\<open>extractQwenAccountID\<close> returns a non-empty string only when the decoded
  payload is read as a map whose \<open>sub\<close> is a string, and then returns that string; when
  \<open>sub\<close> is present with a value that is not a string (\<^verbatim>\<open>nil\<close>, a bool, a number,
  a slice or a map), the result is empty.
\<close>

theorem extractQwenAccountID_string_sub:
  "(extractQwenAccountID js tok \<noteq> '''' \<longrightarrow>
      (\<exists>decoded claims.
         token_payload tok = Some decoded \<and> Unmarshal_claims js decoded = Some claims \<and>
         claims ''sub'' = Some (GoString (extractQwenAccountID js tok)))) \<and>
   (token_payload tok = Some decoded \<and> Unmarshal_claims js decoded = Some claims \<and>
    claims ''sub'' = Some v \<and> (\<forall>s. v \<noteq> GoString s) \<longrightarrow>
      extractQwenAccountID js tok = '''')"
  unfolding extract_via_payload
  by (auto split: option.splits go_value.splits)

theorem extractQwenAccountID_string_sub_witness:
  "token_payload ''abc.eyJzdWIiOnRydWV9.sig'' = Some ''{\"sub\":true}'' \<and>
   the (Unmarshal_claims json_table ''{\"sub\":true}'') ''sub'' = Some (GoBool True) \<and>
   extractQwenAccountID json_table ''abc.eyJzdWIiOnRydWV9.sig'' = '''' \<and>
   extractQwenAccountID json_table ''abc.eyJzdWIiOiJ1MSJ9.sig'' = ''u1'' \<and>
   (\<exists>decoded claims.
      token_payload ''abc.eyJzdWIiOiJ1MSJ9.sig'' = Some decoded \<and>
      Unmarshal_claims json_table decoded = Some claims \<and>
      claims ''sub'' = Some (GoString ''u1''))"
proof -
  let ?tok = "''abc.eyJzdWIiOnRydWV9.sig''"
  have p: "token_payload ?tok = Some ''{\"sub\":true}''"
    by (simp add: token_payload_def eval_base64)
  have u: "Unmarshal_claims json_table ''{\"sub\":true}'' = Some [''sub'' \<mapsto> GoBool True]"
    by (simp add: json_table_def)
  have l: "[''sub'' \<mapsto> GoBool True] ''sub'' = Some (GoBool True)"
    by simp
  have n: "\<forall>s. GoBool True \<noteq> GoString s"
    by simp
  have c1: "extractQwenAccountID json_table ?tok = ''''"
    by (rule extractQwenAccountID_string_sub
        [where tok = ?tok and js = json_table and decoded = "''{\"sub\":true}''"
           and claims = "[''sub'' \<mapsto> GoBool True]" and v = "GoBool True",
         THEN conjunct2, rule_format])
      (intro conjI p u l n)
  have x: "extractQwenAccountID json_table ''abc.eyJzdWIiOiJ1MSJ9.sig'' = ''u1''"
    by (simp add: extractQwenAccountID_def json_table_def eval_base64)
  have nx: "extractQwenAccountID json_table ''abc.eyJzdWIiOiJ1MSJ9.sig'' \<noteq> ''''"
    unfolding x by simp
  have c2: "\<exists>decoded claims.
      token_payload ''abc.eyJzdWIiOiJ1MSJ9.sig'' = Some decoded \<and>
      Unmarshal_claims json_table decoded = Some claims \<and>
      claims ''sub'' = Some (GoString ''u1'')"
    using extractQwenAccountID_string_sub
        [where tok = "''abc.eyJzdWIiOiJ1MSJ9.sig''" and js = json_table,
         THEN conjunct1, rule_format, OF nx]
    unfolding x .
  have l2: "the (Unmarshal_claims json_table ''{\"sub\":true}'') ''sub'' = Some (GoBool True)"
    unfolding u by simp
  show ?thesis
    by (intro conjI p l2 c1 x c2)
qed

section \<open>The expiry of the credential\<close>

lemma sint_seconds:
  fixes e :: "64 word"
  assumes "0 < sint e" "sint e \<le> 9223372036"
  shows "sint (e * Second) = sint e * 1000000000"
proof -
  have s: "sint Second = 1000000000"
    by (simp add: Second_def)
  have "sint (e * Second) = signed_take_bit 63 (sint e * 1000000000)"
    by (simp add: sint_word_mult s)
  also have "\<dots> = sint e * 1000000000"
    using assms by (intro signed_take_bit_int_eq_self) simp_all
  finally show ?thesis .
qed

text \<open>
  C7, at \<^verbatim>\<open>expires_in\<close> 9223372037 and at 9223372036854775807, the largest
  \<^verbatim>\<open>int64\<close>. The nanoseconds \<^verbatim>\<open>time.Duration(tokenResp.ExpiresIn) * time.Second\<close>
  do not fit 64 bits and the product wraps: to \<open>- 9223372036709551616\<close> for the first,
  so that the expiry lies some 292 years before \<open>now\<close>, and to \<open>- 1000000000\<close> for the
  second, so that it lies one second before \<open>now\<close>; neither is \<open>now\<close> plus
  \<^verbatim>\<open>expires_in\<close> seconds.
\<close>

theorem exchange_expiry_wraps:
  "sint (ExpiresIn (the (Unmarshal_QwenTokenResponse json_table
             ''{\"access_token\":\"t1\",\"expires_in\":9223372037}''))) = 9223372037 \<and>
   exchangeQwenCodeForToken json_table
     (answer 200 ''{\"access_token\":\"t1\",\"expires_in\":9223372037}'') clock_2026
     ''c1'' ''v'' ''s'' =
   Inr \<lparr>AccessToken = ''t1'', RefreshToken = '''', AccountID = '''',
        ExpiresAt = clock_2026 - 9223372036709551616,
        Provider = ''qwen'', AuthMethod = ''oauth''\<rparr> \<and>
   clock_2026 - 9223372036709551616 \<noteq> clock_2026 + 9223372037 * 1000000000 \<and>
   sint (ExpiresIn (the (Unmarshal_QwenTokenResponse json_table
             ''{\"access_token\":\"t1\",\"expires_in\":9223372036854775807}''))) =
     9223372036854775807 \<and>
   exchangeQwenCodeForToken json_table
     (answer 200 ''{\"access_token\":\"t1\",\"expires_in\":9223372036854775807}'') clock_2026
     ''c1'' ''v'' ''s'' =
   Inr \<lparr>AccessToken = ''t1'', RefreshToken = '''', AccountID = '''',
        ExpiresAt = clock_2026 - 1000000000,
        Provider = ''qwen'', AuthMethod = ''oauth''\<rparr>"
  by (simp add: exchangeQwenCodeForToken_def answer_def json_table_def Let_def
      extractQwenAccountID_def Second_def clock_2026_def)

lemma exchange_succeeds':
  assumes "http_post (token_form code codeVerifier state) = Response 200 body"
    and "Unmarshal_QwenTokenResponse js body = Some tokenResp"
    and "TokenAccessToken tokenResp \<noteq> ''''"
  shows "\<exists>cred. exchangeQwenCodeForToken js http_post now code codeVerifier state = Inr cred \<and>
           ExpiresAt cred = (if 0 < sint (ExpiresIn tokenResp)
                             then now + sint (ExpiresIn tokenResp * Second) else 0)"
  using exchange_succeeds[of http_post code codeVerifier state body js tokenResp now] assms
  by simp

text \<open>
  Where the product does not wrap, the expiry is as C7 says. When the token endpoint
  answers with status 200 and a non-empty access token, the exchange returns a
  credential whose expiry is \<open>now\<close> plus \<^verbatim>\<open>expires_in\<close> seconds when
  \<open>0 < expires_in \<le> 9223372036\<close>, and the zero time when \<^verbatim>\<open>expires_in\<close> is zero or
  negative; for every positive \<^verbatim>\<open>expires_in\<close> it is \<open>now\<close> plus the wrapped product.
  For every clock later than \<open>2\<^sup>6\<^sup>3\<close> nanoseconds after the zero time, the expiry
  differs from the zero time exactly when \<^verbatim>\<open>expires_in\<close> is positive.
\<close>

lemma exchange_expiry:
  "http_post (token_form code codeVerifier state) = Response 200 body \<and>
   Unmarshal_QwenTokenResponse js body = Some tokenResp \<and>
   TokenAccessToken tokenResp \<noteq> '''' \<longrightarrow>
   (\<exists>cred. exchangeQwenCodeForToken js http_post now code codeVerifier state = Inr cred \<and>
      (0 < sint (ExpiresIn tokenResp) \<and> sint (ExpiresIn tokenResp) \<le> 9223372036 \<longrightarrow>
         ExpiresAt cred = now + sint (ExpiresIn tokenResp) * 1000000000) \<and>
      (0 < sint (ExpiresIn tokenResp) \<longrightarrow>
         ExpiresAt cred = now + sint (ExpiresIn tokenResp * Second)) \<and>
      (sint (ExpiresIn tokenResp) \<le> 0 \<longrightarrow> ExpiresAt cred = 0) \<and>
      (9223372036854775808 < now \<longrightarrow>
         (ExpiresAt cred \<noteq> 0) = (0 < sint (ExpiresIn tokenResp))))"
proof
  assume h: "http_post (token_form code codeVerifier state) = Response 200 body \<and>
   Unmarshal_QwenTokenResponse js body = Some tokenResp \<and>
   TokenAccessToken tokenResp \<noteq> ''''"
  then obtain cred where
    c: "exchangeQwenCodeForToken js http_post now code codeVerifier state = Inr cred"
    and e: "ExpiresAt cred = (if 0 < sint (ExpiresIn tokenResp)
                             then now + sint (ExpiresIn tokenResp * Second) else 0)"
    using exchange_succeeds'[of http_post code codeVerifier state body js tokenResp now]
    by blast
  have lo: "- 9223372036854775808 \<le> sint (ExpiresIn tokenResp * Second)"
    using sint_ge[of "ExpiresIn tokenResp * Second"] by simp
  have "(0 < sint (ExpiresIn tokenResp) \<and> sint (ExpiresIn tokenResp) \<le> 9223372036 \<longrightarrow>
         ExpiresAt cred = now + sint (ExpiresIn tokenResp) * 1000000000)"
    using e by (simp add: sint_seconds)
  moreover have "(0 < sint (ExpiresIn tokenResp) \<longrightarrow>
         ExpiresAt cred = now + sint (ExpiresIn tokenResp * Second))"
    using e by simp
  moreover have "(sint (ExpiresIn tokenResp) \<le> 0 \<longrightarrow> ExpiresAt cred = 0)"
    using e by simp
  moreover have "(9223372036854775808 < now \<longrightarrow>
         (ExpiresAt cred \<noteq> 0) = (0 < sint (ExpiresIn tokenResp)))"
    using e lo by auto
  ultimately show "\<exists>cred. exchangeQwenCodeForToken js http_post now code codeVerifier state = Inr cred \<and>
      (0 < sint (ExpiresIn tokenResp) \<and> sint (ExpiresIn tokenResp) \<le> 9223372036 \<longrightarrow>
         ExpiresAt cred = now + sint (ExpiresIn tokenResp) * 1000000000) \<and>
      (0 < sint (ExpiresIn tokenResp) \<longrightarrow>
         ExpiresAt cred = now + sint (ExpiresIn tokenResp * Second)) \<and>
      (sint (ExpiresIn tokenResp) \<le> 0 \<longrightarrow> ExpiresAt cred = 0) \<and>
      (9223372036854775808 < now \<longrightarrow>
         (ExpiresAt cred \<noteq> 0) = (0 < sint (ExpiresIn tokenResp)))"
    using c by blast
qed

lemma exchange_expiry_examples:
  "(\<exists>cred. exchangeQwenCodeForToken json_table
            (answer 200 ''{\"access_token\":\"t1\",\"expires_in\":3600}'') clock_2026
            ''c1'' ''v'' ''s'' = Inr cred \<and>
          ExpiresAt cred = clock_2026 + 3600 * 1000000000 \<and> ExpiresAt cred \<noteq> 0) \<and>
   (\<exists>cred. exchangeQwenCodeForToken json_table
            (answer 200 ''{\"access_token\":\"t1\",\"expires_in\":-5}'') clock_2026
            ''c1'' ''v'' ''s'' = Inr cred \<and>
          ExpiresAt cred = 0)"
proof -
  let ?body = "''{\"access_token\":\"t1\",\"expires_in\":3600}''"
  let ?tr = "\<lparr>TokenAccessToken = ''t1'', TokenRefreshToken = '''', ExpiresIn = 3600,
                   TokenType = ''''\<rparr>"
  have a: "answer 200 ?body (token_form ''c1'' ''v'' ''s'') = Response 200 ?body"
    by (simp add: answer_def)
  have u: "Unmarshal_QwenTokenResponse json_table ?body = Some ?tr"
    by (simp add: json_table_def)
  have n: "TokenAccessToken ?tr \<noteq> ''''"
    by simp
  have s: "sint (ExpiresIn ?tr) = 3600"
    by simp
  have k: "(9223372036854775808 :: int) < clock_2026"
    by (simp add: clock_2026_def)
  have positive: "\<exists>cred. exchangeQwenCodeForToken json_table (answer 200 ?body) clock_2026
            ''c1'' ''v'' ''s'' = Inr cred \<and>
          ExpiresAt cred = clock_2026 + 3600 * 1000000000 \<and> ExpiresAt cred \<noteq> 0"
    using exchange_expiry
      [where http_post = "answer 200 ?body" and code = "''c1''" and codeVerifier = "''v''"
         and state = "''s''" and body = ?body and js = json_table and tokenResp = ?tr
         and now = clock_2026, rule_format, OF conjI[OF a conjI[OF u n]]]
    unfolding s using k by auto
  let ?body' = "''{\"access_token\":\"t1\",\"expires_in\":-5}''"
  let ?tr' = "\<lparr>TokenAccessToken = ''t1'', TokenRefreshToken = '''', ExpiresIn = - 5,
                   TokenType = ''''\<rparr>"
  have a': "answer 200 ?body' (token_form ''c1'' ''v'' ''s'') = Response 200 ?body'"
    by (simp add: answer_def)
  have u': "Unmarshal_QwenTokenResponse json_table ?body' = Some ?tr'"
    by (simp add: json_table_def)
  have n': "TokenAccessToken ?tr' \<noteq> ''''"
    by simp
  have s': "sint (ExpiresIn ?tr') = - 5"
    by simp
  have negative: "\<exists>cred. exchangeQwenCodeForToken json_table (answer 200 ?body') clock_2026
            ''c1'' ''v'' ''s'' = Inr cred \<and> ExpiresAt cred = 0"
    using exchange_expiry
      [where http_post = "answer 200 ?body'" and code = "''c1''" and codeVerifier = "''v''"
         and state = "''s''" and body = ?body' and js = json_table and tokenResp = ?tr'
         and now = clock_2026, rule_format, OF conjI[OF a' conjI[OF u' n']]]
    unfolding s' by auto
  from positive negative show ?thesis
    by (rule conjI)
qed

section \<open>The status check and the loop\<close>

lemma poll_loop_continue:
  assumes "select (pick_deadline r) now next_tick = TickerCase t"
    and "\<forall>cred. checkQwenScanStatus js (status_get r) (token_post r) (wall_clock r)
           qrCodeId state codeVerifier \<noteq> Inr (Some cred)"
  shows "poll_loop js qrCodeId state codeVerifier now next_tick polled (r # rs) =
         poll_loop js qrCodeId state codeVerifier (t + latency r) (tick_after t)
           (polled @ [t]) rs"
  using assms by (simp split: sum.splits option.splits)

text \<open>
  C8. When the status endpoint answers with a body that parses and whose status is none
  of \<^verbatim>\<open>AUTHORIZED\<close>, \<^verbatim>\<open>EXPIRED\<close> and \<^verbatim>\<open>CANCELED\<close>, \<^verbatim>\<open>checkQwenScanStatus\<close>
  returns neither a credential nor an error; and on such a result the loop, having taken
  the ticker's case at time \<open>t\<close>, goes on with the next round: it returns nothing, notes
  the poll, and waits for the first tick after \<open>t\<close>.
\<close>

theorem checkQwenScanStatus_keeps_waiting:
  "(http_get (status_url qrCodeId) = Response StatusCode body \<and>
    Unmarshal_statusResp js body = Some resp \<and>
    DataStatus resp \<noteq> ''AUTHORIZED'' \<and> DataStatus resp \<noteq> ''EXPIRED'' \<and>
    DataStatus resp \<noteq> ''CANCELED'' \<longrightarrow>
      checkQwenScanStatus js http_get http_post now qrCodeId state codeVerifier = Inr None) \<and>
   (checkQwenScanStatus js (status_get r) (token_post r) (wall_clock r)
      qrCodeId state codeVerifier = Inr None \<and>
    select (pick_deadline r) elapsed next_tick = TickerCase t \<longrightarrow>
      poll_loop js qrCodeId state codeVerifier elapsed next_tick polled (r # rs) =
      poll_loop js qrCodeId state codeVerifier (t + latency r) (tick_after t)
        (polled @ [t]) rs)"
proof (intro conjI impI)
  assume "http_get (status_url qrCodeId) = Response StatusCode body \<and>
    Unmarshal_statusResp js body = Some resp \<and>
    DataStatus resp \<noteq> ''AUTHORIZED'' \<and> DataStatus resp \<noteq> ''EXPIRED'' \<and>
    DataStatus resp \<noteq> ''CANCELED''"
  then show "checkQwenScanStatus js http_get http_post now qrCodeId state codeVerifier = Inr None"
    by (simp add: checkQwenScanStatus_def)
next
  assume "checkQwenScanStatus js (status_get r) (token_post r) (wall_clock r)
      qrCodeId state codeVerifier = Inr None \<and>
    select (pick_deadline r) elapsed next_tick = TickerCase t"
  then show "poll_loop js qrCodeId state codeVerifier elapsed next_tick polled (r # rs) =
      poll_loop js qrCodeId state codeVerifier (t + latency r) (tick_after t)
        (polled @ [t]) rs"
    by (simp add: poll_loop_continue)
qed

lemma select_first_tick: "select pick 0 tick_ms = TickerCase 3000"
  by (simp add: select_def tick_ms_def deadline_ms_def)

theorem checkQwenScanStatus_keeps_waiting_witness:
  "checkQwenScanStatus json_table (answer 200 ''{\"data\":{\"status\":\"PENDING\"}}'')
     unreachable clock_2026 ''q1'' ''s'' ''v'' = Inr None \<and>
   checkQwenScanStatus json_table (answer 200 ''{\"data\":{\"status\":\"QR_CODE_SCANNED\"}}'')
     unreachable clock_2026 ''q1'' ''s'' ''v'' = Inr None \<and>
   checkQwenScanStatus json_table (answer 200 ''{}'')
     unreachable clock_2026 ''q1'' ''s'' ''v'' = Inr None \<and>
   poll_loop json_table ''q1'' ''s'' ''v'' 0 tick_ms [] [pending_round, pending_round] =
   poll_loop json_table ''q1'' ''s'' ''v'' (3000 + latency pending_round) (tick_after 3000)
     [3000] [pending_round]"
proof -
  note T = checkQwenScanStatus_keeps_waiting
    [where js = json_table and http_post = unreachable and now = clock_2026
       and qrCodeId = "''q1''" and state = "''s''" and codeVerifier = "''v''"
       and StatusCode = 200]
  let ?pending = "''{\"data\":{\"status\":\"PENDING\"}}''"
  let ?scanned = "''{\"data\":{\"status\":\"QR_CODE_SCANNED\"}}''"
  let ?none = "''{}''"
  have c1: "checkQwenScanStatus json_table (answer 200 ?pending)
     unreachable clock_2026 ''q1'' ''s'' ''v'' = Inr None"
    by (rule T[where http_get = "answer 200 ?pending" and body = ?pending
          and resp = "\<lparr>StatusRespCode = '''', StatusRespMessage = '''',
                   DataStatus = ''PENDING'', DataCode = ''''\<rparr>",
          THEN conjunct1, rule_format])
      (simp add: answer_def json_table_def)
  have c2: "checkQwenScanStatus json_table (answer 200 ?scanned)
     unreachable clock_2026 ''q1'' ''s'' ''v'' = Inr None"
    by (rule T[where http_get = "answer 200 ?scanned" and body = ?scanned
          and resp = "\<lparr>StatusRespCode = '''', StatusRespMessage = '''',
                   DataStatus = ''QR_CODE_SCANNED'', DataCode = ''''\<rparr>",
          THEN conjunct1, rule_format])
      (simp add: answer_def json_table_def)
  have c3: "checkQwenScanStatus json_table (answer 200 ?none)
     unreachable clock_2026 ''q1'' ''s'' ''v'' = Inr None"
    by (rule T[where http_get = "answer 200 ?none" and body = ?none
          and resp = "\<lparr>StatusRespCode = '''', StatusRespMessage = '''',
                   DataStatus = '''', DataCode = ''''\<rparr>",
          THEN conjunct1, rule_format])
      (simp add: answer_def json_table_def)
  have r: "status_get pending_round = answer 200 ?pending"
    "token_post pending_round = unreachable" "wall_clock pending_round = clock_2026"
    "pick_deadline pending_round = False"
    by (simp_all add: pending_round_def)
  have c4: "poll_loop json_table ''q1'' ''s'' ''v'' 0 tick_ms [] ([pending_round, pending_round]) =
   poll_loop json_table ''q1'' ''s'' ''v'' (3000 + latency pending_round) (tick_after 3000)
     ([] @ [3000]) [pending_round]"
    by (rule T[where r = pending_round and elapsed = 0 and next_tick = tick_ms and t = 3000
          and polled = "[]" and rs = "[pending_round]",
          THEN conjunct2, rule_format])
      (simp add: r c1 select_first_tick)
  show ?thesis
    using c1 c2 c3 c4 by simp
qed

text \<open>
  C6, at the body \<^verbatim>\<open>{}\<close>. The body is JSON, \<^verbatim>\<open>json.Unmarshal\<close> accepts it and
  leaves every field empty, and \<^verbatim>\<open>getQwenQRCode\<close> returns that response: a grant
  whose \<^verbatim>\<open>qrCodeId\<close> and \<^verbatim>\<open>qrCodeUrl\<close> are empty. The source checks the error of
  \<^verbatim>\<open>json.Unmarshal\<close> only.
\<close>

theorem getQwenQRCode_accepts_missing_fields:
  "getQwenQRCode json_table (answer 200 ''{}'') ''s'' ''c'' =
     Inr \<lparr>QrCode = '''', QrMessage = '''', QrData = no_data\<rparr> \<and>
   QrCodeId no_data = '''' \<and> QrCodeUrl no_data = ''''"
  by (simp add: getQwenQRCode_def answer_def json_table_def no_data_def)

lemma getQwenQRCode_unparseable:
  "http_get (qrcode_url state codeChallenge) = Response StatusCode body \<Longrightarrow>
   Unmarshal_QwenQRCodeResponse js body = None \<Longrightarrow>
   getQwenQRCode js http_get state codeChallenge = Inl (QRCodeParseError body)"
  by (simp add: getQwenQRCode_def)

lemma getQwenQRCode_parsed:
  "http_get (qrcode_url state codeChallenge) = Response StatusCode body \<Longrightarrow>
   Unmarshal_QwenQRCodeResponse js body = Some qrResp \<Longrightarrow>
   getQwenQRCode js http_get state codeChallenge = Inr qrResp"
  by (simp add: getQwenQRCode_def)

lemma expired_first_login:
  "LoginQwenQRCode json_table expired_first =
     Some \<lparr>outcome = Inr \<lparr>AccessToken = ''t1'', RefreshToken = '''', AccountID = '''',
                          ExpiresAt = 63900003600000000000,
                          Provider = ''qwen'', AuthMethod = ''oauth''\<rparr>,
           finished_at = 6100, polled_at = [3000, 6000]\<rparr>"
  by (simp add: LoginQwenQRCode_def expired_first_def expired_round_def authorized_round_def
      generateQwenState_def generateCodeVerifier_def generateCodeChallenge_def
      getQwenQRCode_def checkQwenScanStatus_def exchangeQwenCodeForToken_def
      extractQwenAccountID_def answer_def unreachable_def json_table_def no_data_def
      select_def tick_after_def tick_ms_def deadline_ms_def clock_2026_def Second_def Let_def)

lemma expired_round_error:
  "checkQwenScanStatus json_table (status_get expired_round) (token_post expired_round)
     (wall_clock expired_round) qrCodeId state codeVerifier = Inl QRCodeExpiredOrCanceled"
  by (simp add: expired_round_def checkQwenScanStatus_def answer_def json_table_def)

section \<open>The PKCE challenge\<close>

lemma length_EncodeToString_nopad:
  "length (EncodeToString_nopad al bs) = (4 * length bs + 2) div 3"
  by (induction al bs rule: EncodeToString_nopad.induct) (simp_all add: Let_def)

lemma length_base64URLEncode_digest:
  "length digest = 32 \<Longrightarrow> length (base64URLEncode digest) = 43"
  by (simp add: base64URLEncode_def length_EncodeToString_nopad)

text \<open>
  C1. \<^verbatim>\<open>generateCodeChallenge\<close> returns its argument: on the verifier of RFC 7636 it
  does not give the challenge of that verifier, and on \<^verbatim>\<open>abc\<close> it gives three bytes,
  which is not the unpadded URL-safe base64 encoding of any 32-byte digest (that has 43).
\<close>

theorem generateCodeChallenge_is_verifier:
  "generateCodeChallenge verifier = verifier \<and>
   generateCodeChallenge rfc7636_verifier \<noteq> rfc7636_challenge \<and>
   (\<forall>digest. length digest = 32 \<longrightarrow> generateCodeChallenge ''abc'' \<noteq> base64URLEncode digest)"
proof (intro conjI allI impI)
  show "generateCodeChallenge verifier = verifier"
    by (simp add: generateCodeChallenge_def)
  show "generateCodeChallenge rfc7636_verifier \<noteq> rfc7636_challenge"
    by (simp add: generateCodeChallenge_def rfc7636_verifier_def rfc7636_challenge_def)
next
  fix digest :: string
  assume "length digest = 32"
  then have "length (base64URLEncode digest) = 43"
    by (rule length_base64URLEncode_digest)
  moreover have "length (generateCodeChallenge ''abc'') = 3"
    by (simp add: generateCodeChallenge_def)
  ultimately show "generateCodeChallenge ''abc'' \<noteq> base64URLEncode digest"
    by auto
qed

theorem generateCodeChallenge_is_verifier_witness:
  "length ''0123456789abcdef0123456789abcdef'' = 32 \<and>
   generateCodeChallenge ''abc'' \<noteq> base64URLEncode ''0123456789abcdef0123456789abcdef''"
proof -
  have l: "length ''0123456789abcdef0123456789abcdef'' = 32"
    by simp
  have n: "generateCodeChallenge ''abc'' \<noteq> base64URLEncode ''0123456789abcdef0123456789abcdef''"
    by (rule generateCodeChallenge_is_verifier[THEN conjunct2, THEN conjunct2, rule_format, OF l])
  from l n show ?thesis
    by (rule conjI)
qed

section \<open>The timing of the loop\<close>

lemma select_DeadlineCase:
  "select pick now next_tick = DeadlineCase t \<Longrightarrow> deadline_ms \<le> t \<and> now \<le> t"
  by (auto simp: select_def Let_def split: if_splits)

lemma select_TickerCase:
  "select pick now next_tick = TickerCase t \<Longrightarrow> next_tick \<le> t \<and> now \<le> t"
  by (auto simp: select_def Let_def split: if_splits)

lemma tick_after_ge: "tick_ms \<le> tick_after t"
  by (simp add: tick_after_def)

lemma poll_loop_times:
  "poll_loop js qrCodeId state codeVerifier now next_tick polled rs = Some run \<Longrightarrow>
   tick_ms \<le> next_tick \<Longrightarrow> \<forall>t\<in>set polled. tick_ms \<le> t \<Longrightarrow>
   (\<forall>t\<in>set (polled_at run). tick_ms \<le> t) \<and> tick_ms \<le> finished_at run"
proof (induction rs arbitrary: now next_tick polled)
  case Nil
  then show ?case by simp
next
  case (Cons r rs)
  show ?case
  proof (cases "select (pick_deadline r) now next_tick")
    case (DeadlineCase t)
    with Cons.prems(1) have run: "run = \<lparr>outcome = Inl ScanTimeout, finished_at = t, polled_at = polled\<rparr>"
      by simp
    from select_DeadlineCase[OF DeadlineCase] have "tick_ms \<le> t"
      by (simp add: deadline_ms_def tick_ms_def)
    with run Cons.prems(3) show ?thesis
      by simp
  next
    case (TickerCase t)
    from select_TickerCase[OF TickerCase] Cons.prems(2) have t: "tick_ms \<le> t"
      by simp
    then have p: "\<forall>u\<in>set (polled @ [t]). tick_ms \<le> u"
      using Cons.prems(3) by simp
    show ?thesis
    proof (cases "checkQwenScanStatus js (status_get r) (token_post r) (wall_clock r)
                    qrCodeId state codeVerifier")
      case (Inl err)
      with TickerCase Cons.prems(1) have
        "poll_loop js qrCodeId state codeVerifier (t + latency r) (tick_after t)
           (polled @ [t]) rs = Some run"
        by simp
      from Cons.IH[OF this tick_after_ge p] show ?thesis .
    next
      case (Inr res)
      show ?thesis
      proof (cases res)
        case None
        with Inr TickerCase Cons.prems(1) have
          "poll_loop js qrCodeId state codeVerifier (t + latency r) (tick_after t)
             (polled @ [t]) rs = Some run"
          by simp
        from Cons.IH[OF this tick_after_ge p] show ?thesis .
      next
        case (Some cred)
        with Inr TickerCase Cons.prems(1) have
          "run = \<lparr>outcome = Inr cred, finished_at = t + latency r, polled_at = polled @ [t]\<rparr>"
          by simp
        with p t show ?thesis
          by simp
      qed
    qed
  qed
qed

text \<open>
  C9. In every run of the loop that returns, started as \<^verbatim>\<open>LoginQwenQRCode\<close> starts
  it (at time 0, the first tick due at \<open>tick_ms\<close>), every call of
  \<^verbatim>\<open>checkQwenScanStatus\<close> is made at or after \<open>tick_ms\<close>, 3 seconds, and the loop returns
  at or after \<open>tick_ms\<close>; the same holds of the polls of every run of
  \<^verbatim>\<open>LoginQwenQRCode\<close>.
\<close>

theorem first_poll_after_one_tick:
  "(poll_loop js qrCodeId state codeVerifier 0 tick_ms [] rs = Some run \<longrightarrow>
      (\<forall>t\<in>set (polled_at run). tick_ms \<le> t) \<and> tick_ms \<le> finished_at run) \<and>
   (LoginQwenQRCode js w = Some run \<longrightarrow> (\<forall>t\<in>set (polled_at run). tick_ms \<le> t))"
proof (intro conjI impI)
  assume "poll_loop js qrCodeId state codeVerifier 0 tick_ms [] rs = Some run"
  from poll_loop_times[OF this] show "\<forall>t\<in>set (polled_at run). tick_ms \<le> t"
    and "tick_ms \<le> finished_at run"
    by simp_all
next
  assume "LoginQwenQRCode js w = Some run"
  then consider (early) "polled_at run = []"
    | (loop) q s v where "poll_loop js q s v 0 tick_ms [] (rounds w) = Some run"
    unfolding LoginQwenQRCode_def
    by (auto simp: Let_def split: sum.splits)
  then show "\<forall>t\<in>set (polled_at run). tick_ms \<le> t"
  proof cases
    case early
    then show ?thesis by simp
  next
    case loop
    from poll_loop_times[OF loop] show ?thesis by simp
  qed
qed

lemma expired_first_run:
  "poll_loop json_table ''q1'' ''s'' ''v'' 0 tick_ms [] [expired_round, authorized_round] =
     Some \<lparr>outcome = Inr \<lparr>AccessToken = ''t1'', RefreshToken = '''', AccountID = '''',
                          ExpiresAt = 63900003600000000000,
                          Provider = ''qwen'', AuthMethod = ''oauth''\<rparr>,
           finished_at = 6100, polled_at = [3000, 6000]\<rparr>"
  by (simp add: expired_round_def authorized_round_def
      checkQwenScanStatus_def exchangeQwenCodeForToken_def
      extractQwenAccountID_def answer_def unreachable_def json_table_def
      select_def tick_after_def tick_ms_def deadline_ms_def clock_2026_def Second_def Let_def)

theorem first_poll_after_one_tick_witness:
  "poll_loop json_table ''q1'' ''s'' ''v'' 0 tick_ms [] [expired_round, authorized_round] =
     Some \<lparr>outcome = Inr \<lparr>AccessToken = ''t1'', RefreshToken = '''', AccountID = '''',
                          ExpiresAt = 63900003600000000000,
                          Provider = ''qwen'', AuthMethod = ''oauth''\<rparr>,
           finished_at = 6100, polled_at = [3000, 6000]\<rparr> \<and>
   LoginQwenQRCode json_table expired_first =
     Some \<lparr>outcome = Inr \<lparr>AccessToken = ''t1'', RefreshToken = '''', AccountID = '''',
                          ExpiresAt = 63900003600000000000,
                          Provider = ''qwen'', AuthMethod = ''oauth''\<rparr>,
           finished_at = 6100, polled_at = [3000, 6000]\<rparr> \<and>
   tick_ms \<le> 3000 \<and> tick_ms \<le> 6000 \<and> tick_ms \<le> 6100"
proof -
  let ?run = "\<lparr>outcome = Inr \<lparr>AccessToken = ''t1'', RefreshToken = '''', AccountID = '''',
                          ExpiresAt = 63900003600000000000,
                          Provider = ''qwen'', AuthMethod = ''oauth''\<rparr>,
           finished_at = 6100, polled_at = [3000, 6000]\<rparr>"
  have "(\<forall>t\<in>set (polled_at ?run). tick_ms \<le> t) \<and> tick_ms \<le> finished_at ?run"
    by (rule first_poll_after_one_tick
        [where js = json_table and rs = "[expired_round, authorized_round]" and run = ?run,
         THEN conjunct1, rule_format, OF expired_first_run])
  moreover have "\<forall>t\<in>set (polled_at ?run). tick_ms \<le> t"
    by (rule first_poll_after_one_tick
        [where js = json_table and w = expired_first and run = ?run,
         THEN conjunct2, THEN mp, OF expired_first_login])
  ultimately have "tick_ms \<le> 3000 \<and> tick_ms \<le> 6000 \<and> tick_ms \<le> 6100"
    by simp
  with expired_first_run expired_first_login show ?thesis
    by (intro conjI) simp_all
qed

lemma select_before_deadline:
  assumes "now < next_tick" "next_tick < deadline_ms"
  shows "select pick now next_tick = TickerCase next_tick"
  using assms by (simp add: select_def Let_def max_def min_def)

lemma select_at_deadline:
  assumes "now < deadline_ms"
  shows "select pick now deadline_ms =
         (if pick then DeadlineCase deadline_ms else TickerCase deadline_ms)"
  using assms by (simp add: select_def Let_def max_def min_def)

lemma select_after_deadline:
  assumes "deadline_ms \<le> now" "now < next_tick"
  shows "select pick now next_tick = DeadlineCase now"
  using assms by (simp add: select_def Let_def max_def min_def)

lemma tick_after_grid: "tick_after (tick_ms * k) = tick_ms * (k + 1)"
  by (simp add: tick_after_def tick_ms_def)

lemma deadline_grid: "deadline_ms = tick_ms * 200"
  by (simp add: deadline_ms_def tick_ms_def)

lemma poll_loop_timeout:
  assumes "\<forall>r\<in>set rs. latency r < tick_ms \<and>
             (\<forall>cred. checkQwenScanStatus js (status_get r) (token_post r) (wall_clock r)
                      qrCodeId state codeVerifier \<noteq> Inr (Some cred))"
    and "1 \<le> k" "k \<le> 201" "now < tick_ms * k" "k = 201 \<longrightarrow> deadline_ms \<le> now"
    and "202 - k \<le> length rs" "length polled + 1 = k"
  shows "\<exists>run. poll_loop js qrCodeId state codeVerifier now (tick_ms * k) polled rs = Some run \<and>
           outcome run = Inl ScanTimeout \<and> deadline_ms \<le> finished_at run \<and>
           finished_at run < deadline_ms + tick_ms \<and> length (polled_at run) \<le> 200"
  using assms
proof (induction rs arbitrary: k now polled)
  case Nil
  then show ?case by simp
next
  case (Cons r rs)
  from Cons.prems(1) have lat: "latency r < tick_ms"
    and nocred: "\<forall>cred. checkQwenScanStatus js (status_get r) (token_post r) (wall_clock r)
                      qrCodeId state codeVerifier \<noteq> Inr (Some cred)"
    and rest: "\<forall>r\<in>set rs. latency r < tick_ms \<and>
             (\<forall>cred. checkQwenScanStatus js (status_get r) (token_post r) (wall_clock r)
                      qrCodeId state codeVerifier \<noteq> Inr (Some cred))"
    by simp_all
  consider (before) "k < 200" | (at) "k = 200" | (after) "k = 201"
    using Cons.prems(3) by linarith
  then show ?case
  proof cases
    case before
    then have "tick_ms * k < deadline_ms"
      by (simp add: deadline_grid tick_ms_def)
    with Cons.prems(4) have sel: "select (pick_deadline r) now (tick_ms * k) = TickerCase (tick_ms * k)"
      by (simp add: select_before_deadline)
    have step: "poll_loop js qrCodeId state codeVerifier now (tick_ms * k) polled (r # rs) =
          poll_loop js qrCodeId state codeVerifier (tick_ms * k + latency r) (tick_ms * (k + 1))
            (polled @ [tick_ms * k]) rs"
      using poll_loop_continue[OF sel nocred] by (simp add: tick_after_grid)
    have "\<exists>run. poll_loop js qrCodeId state codeVerifier (tick_ms * k + latency r)
             (tick_ms * (k + 1)) (polled @ [tick_ms * k]) rs = Some run \<and>
           outcome run = Inl ScanTimeout \<and> deadline_ms \<le> finished_at run \<and>
           finished_at run < deadline_ms + tick_ms \<and> length (polled_at run) \<le> 200"
    proof (rule Cons.IH[OF rest])
      show "1 \<le> k + 1" by simp
      show "k + 1 \<le> 201" using before by simp
      show "tick_ms * k + latency r < tick_ms * (k + 1)" using lat by simp
      show "k + 1 = 201 \<longrightarrow> deadline_ms \<le> tick_ms * k + latency r" using before by simp
      show "202 - (k + 1) \<le> length rs" using Cons.prems(6) by simp
      show "length (polled @ [tick_ms * k]) + 1 = k + 1" using Cons.prems(7) by simp
    qed
    with step show ?thesis by simp
  next
    case at
    then have grid: "tick_ms * k = deadline_ms"
      by (simp add: deadline_grid)
    from Cons.prems(4) have "now < deadline_ms"
      unfolding grid .
    then have sel: "select (pick_deadline r) now deadline_ms =
         (if pick_deadline r then DeadlineCase deadline_ms else TickerCase deadline_ms)"
      by (rule select_at_deadline)
    show ?thesis
    proof (cases "pick_deadline r")
      case True
      with sel Cons.prems(7) at show ?thesis
        unfolding grid by (simp add: tick_ms_def)
    next
      case False
      with sel have sel': "select (pick_deadline r) now (tick_ms * k) = TickerCase (tick_ms * k)"
        unfolding grid by simp
      have step: "poll_loop js qrCodeId state codeVerifier now (tick_ms * k) polled (r # rs) =
          poll_loop js qrCodeId state codeVerifier (tick_ms * k + latency r) (tick_ms * (k + 1))
            (polled @ [tick_ms * k]) rs"
        using poll_loop_continue[OF sel' nocred] by (simp add: tick_after_grid)
      have "\<exists>run. poll_loop js qrCodeId state codeVerifier (tick_ms * k + latency r)
             (tick_ms * (k + 1)) (polled @ [tick_ms * k]) rs = Some run \<and>
           outcome run = Inl ScanTimeout \<and> deadline_ms \<le> finished_at run \<and>
           finished_at run < deadline_ms + tick_ms \<and> length (polled_at run) \<le> 200"
      proof (rule Cons.IH[OF rest])
        show "1 \<le> k + 1" by simp
        show "k + 1 \<le> 201" using at by simp
        show "tick_ms * k + latency r < tick_ms * (k + 1)" using lat by simp
        show "k + 1 = 201 \<longrightarrow> deadline_ms \<le> tick_ms * k + latency r" unfolding grid by simp
        show "202 - (k + 1) \<le> length rs" using Cons.prems(6) by simp
        show "length (polled @ [tick_ms * k]) + 1 = k + 1" using Cons.prems(7) by simp
      qed
      with step show ?thesis by simp
    qed
  next
    case after
    with Cons.prems(5) have d: "deadline_ms \<le> now"
      by simp
    with Cons.prems(4) have sel: "select (pick_deadline r) now (tick_ms * k) = DeadlineCase now"
      by (simp add: select_after_deadline)
    have "now < deadline_ms + tick_ms"
      using Cons.prems(4) after by (simp add: deadline_grid)
    with sel d Cons.prems(7) after show ?thesis
      by simp
  qed
qed








section \<open>A grant that expires while the loop polls\<close>

lemma expired_rounds_time_out:
  "\<exists>run. poll_loop json_table qrCodeId state codeVerifier 0 tick_ms []
            (replicate 201 expired_round) = Some run \<and>
         outcome run = Inl ScanTimeout \<and> deadline_ms \<le> finished_at run"
proof -
  have "\<exists>run. poll_loop json_table qrCodeId state codeVerifier 0 (tick_ms * 1) []
            (replicate 201 expired_round) = Some run \<and>
      outcome run = Inl ScanTimeout \<and> deadline_ms \<le> finished_at run \<and>
      finished_at run < deadline_ms + tick_ms \<and> length (polled_at run) \<le> 200"
  proof (rule poll_loop_timeout)
    show "\<forall>r\<in>set (replicate 201 expired_round). latency r < tick_ms \<and>
      (\<forall>cred. checkQwenScanStatus json_table (status_get r) (token_post r) (wall_clock r)
               qrCodeId state codeVerifier \<noteq> Inr (Some cred))"
      by (simp add: expired_round_error) (simp add: expired_round_def tick_ms_def)
    show "(1::nat) \<le> 1" by simp
    show "(1::nat) \<le> 201" by simp
    show "0 < tick_ms * 1" by (simp add: tick_ms_def)
    show "(1::nat) = 201 \<longrightarrow> deadline_ms \<le> 0" by simp
    show "202 - 1 \<le> length (replicate 201 expired_round)" by simp
    show "length ([] :: nat list) + 1 = 1" by simp
  qed
  then show ?thesis
    by auto
qed

text \<open>
  C2, where the first poll reports \<^verbatim>\<open>EXPIRED\<close>. \<^verbatim>\<open>checkQwenScanStatus\<close> returns
  the error of an expired or cancelled grant, and the loop of \<^verbatim>\<open>LoginQwenQRCode\<close>
  drops it (\<^verbatim>\<open>if err != nil { continue }\<close>) and polls again at the next tick. When the
  second poll reports \<^verbatim>\<open>AUTHORIZED\<close>, the login returns the credential of that poll;
  when every poll reports \<^verbatim>\<open>EXPIRED\<close>, the loop runs to the deadline and returns the
  timeout error.
\<close>

theorem LoginQwenQRCode_polls_after_expired:
  "generateQwenState (rand_state expired_first) =
     Inr ''3031323334353637383961626364656630313233343536373839616263646566'' \<and>
   generateCodeVerifier (rand_verifier expired_first) =
     Inr ''ZmVkY2JhOTg3NjU0MzIxMGZlZGNiYTk4NzY1NDMyMTA'' \<and>
   rounds expired_first = [expired_round, authorized_round] \<and>
   checkQwenScanStatus json_table (status_get expired_round) (token_post expired_round)
     (wall_clock expired_round) ''q1''
     ''3031323334353637383961626364656630313233343536373839616263646566''
     ''ZmVkY2JhOTg3NjU0MzIxMGZlZGNiYTk4NzY1NDMyMTA'' = Inl QRCodeExpiredOrCanceled \<and>
   LoginQwenQRCode json_table expired_first =
     Some \<lparr>outcome = Inr \<lparr>AccessToken = ''t1'', RefreshToken = '''', AccountID = '''',
                          ExpiresAt = 63900003600000000000,
                          Provider = ''qwen'', AuthMethod = ''oauth''\<rparr>,
           finished_at = 6100, polled_at = [3000, 6000]\<rparr> \<and>
   (\<exists>run. poll_loop json_table ''q1''
            ''3031323334353637383961626364656630313233343536373839616263646566''
            ''ZmVkY2JhOTg3NjU0MzIxMGZlZGNiYTk4NzY1NDMyMTA'' 0 tick_ms []
            (replicate 201 expired_round) = Some run \<and>
          outcome run = Inl ScanTimeout \<and> deadline_ms \<le> finished_at run)"
proof (intro conjI)
  show "generateQwenState (rand_state expired_first) =
     Inr ''3031323334353637383961626364656630313233343536373839616263646566''"
    by (simp add: generateQwenState_def expired_first_def hextable_def)
  show "generateCodeVerifier (rand_verifier expired_first) =
     Inr ''ZmVkY2JhOTg3NjU0MzIxMGZlZGNiYTk4NzY1NDMyMTA''"
    by (simp add: generateCodeVerifier_def expired_first_def base64URLEncode_def encodeURL_def)
  show "rounds expired_first = [expired_round, authorized_round]"
    by (simp add: expired_first_def)
  show "checkQwenScanStatus json_table (status_get expired_round) (token_post expired_round)
     (wall_clock expired_round) ''q1''
     ''3031323334353637383961626364656630313233343536373839616263646566''
     ''ZmVkY2JhOTg3NjU0MzIxMGZlZGNiYTk4NzY1NDMyMTA'' = Inl QRCodeExpiredOrCanceled"
    by (rule expired_round_error)
  show "LoginQwenQRCode json_table expired_first =
     Some \<lparr>outcome = Inr \<lparr>AccessToken = ''t1'', RefreshToken = '''', AccountID = '''',
                          ExpiresAt = 63900003600000000000,
                          Provider = ''qwen'', AuthMethod = ''oauth''\<rparr>,
           finished_at = 6100, polled_at = [3000, 6000]\<rparr>"
    by (rule expired_first_login)
  show "\<exists>run. poll_loop json_table ''q1''
            ''3031323334353637383961626364656630313233343536373839616263646566''
            ''ZmVkY2JhOTg3NjU0MzIxMGZlZGNiYTk4NzY1NDMyMTA'' 0 tick_ms []
            (replicate 201 expired_round) = Some run \<and>
          outcome run = Inl ScanTimeout \<and> deadline_ms \<le> finished_at run"
    by (rule expired_rounds_time_out)
qed

end
